theory Spec2Isabelle
  imports Complex_Main "HOL-Library.Sublist" "HOL-Library.Char_ord" "HOL-Library.List_Lexorder"
begin

section \<open>Python values used by the scripts\<close>

text \<open>
  Exceptions are values.  Each constructor is a Python exception class that is a
  subclass of \<open>Exception\<close>, carrying the text that \<open>str(e)\<close> yields.
  \<open>APIError\<close> stands for whatever the service client raises.
\<close>

datatype exn =
    RuntimeError string
  | ValueError string
  | ZeroDivisionError string
  | OSError string
  | APIError string

fun str_exn :: "exn \<Rightarrow> string" where
  "str_exn (RuntimeError m) = m"
| "str_exn (ValueError m) = m"
| "str_exn (ZeroDivisionError m) = m"
| "str_exn (OSError m) = m"
| "str_exn (APIError m) = m"

text \<open>\<open>str(n)\<close> of a Python integer: decimal digits, a leading minus sign when negative.\<close>

definition digit_char :: "nat \<Rightarrow> char" where
  "digit_char d = char_of (48 + d)"

fun str_nat :: "nat \<Rightarrow> string" where
  "str_nat n = (if n < 10 then [digit_char n] else str_nat (n div 10) @ [digit_char (n mod 10)])"

declare str_nat.simps [simp del]

definition str_int :: "int \<Rightarrow> string" where
  "str_int i = (if i < 0 then CHR ''-'' # str_nat (nat (- i)) else str_nat (nat i))"

text \<open>The format specification \<open>{x:>4}\<close>: right-aligned in a field of width 4.\<close>

definition rjust :: "nat \<Rightarrow> string \<Rightarrow> string" where
  "rjust w s = replicate (w - length s) CHR '' '' @ s"

definition newline :: char where
  "newline = CHR 0x0A"

section \<open>The job driver: \<open>wait_for_completion\<close> (generate.py)\<close>

text \<open>
  A job record as the service returns it.  \<open>progress\<close> and \<open>error\<close> are read with
  \<open>getattr(job, name, None)\<close>, so an absent attribute and \<open>None\<close> coincide.
  The error attribute is either an object with a \<open>message\<close> attribute or some other
  value that is formatted as it is.
\<close>

datatype error_value = ErrorObject string | ErrorText string

record job =
  job_id :: string
  status :: string
  progress :: "int option"
  error :: "error_value option"

text \<open>
  The observable state of one call: the local variable \<open>elapsed\<close>, the number of
  \<open>client.videos.retrieve\<close> calls made so far, the arguments of the \<open>time.sleep\<close>
  calls in order, and the texts passed to \<open>print\<close> in order.
\<close>

record poll_state =
  elapsed :: int
  polls :: nat
  slept :: "int list"
  printed :: "string list"

text \<open>
  The service is an oracle: \<open>retrieve video_id k\<close> is the outcome of the \<open>k\<close>-th
  call (counted from 0) of \<open>client.videos.retrieve(video_id)\<close>, a job record or an
  exception.
\<close>

type_synonym retrieve_oracle = "string \<Rightarrow> nat \<Rightarrow> exn + job"

definition progress_str :: "int option \<Rightarrow> string" where
  "progress_str p = (case p of Some n \<Rightarrow> str_int n @ ''%'' | None \<Rightarrow> ''?'')"

definition status_line :: "int \<Rightarrow> job \<Rightarrow> string" where
  "status_line e j =
     ''  ['' @ rjust 4 (str_int e) @ ''s] Status: '' @ status j @ '', Progress: ''
       @ progress_str (progress j)"

definition failure_message :: "job \<Rightarrow> string" where
  "failure_message j =
     ''Video generation failed: '' @
       (case error j of
          None \<Rightarrow> ''None''
        | Some (ErrorObject m) \<Rightarrow> m
        | Some (ErrorText t) \<Rightarrow> t)"

definition timeout_message :: "int \<Rightarrow> string \<Rightarrow> string" where
  "timeout_message timeout video_id =
     ''Timed out after '' @ str_int timeout @ ''s waiting for video '' @ video_id"

text \<open>
  The \<open>while elapsed < timeout\<close> loop.  \<open>time.sleep\<close> raises \<open>ValueError\<close> on a
  negative argument.  With \<open>poll_interval = 0\<close> the loop may run forever, so the
  loop is a partial function: \<open>None\<close> is "does not return".
\<close>

partial_function (option) wait_loop ::
  "retrieve_oracle \<Rightarrow> string \<Rightarrow> int \<Rightarrow> int \<Rightarrow> poll_state \<Rightarrow> ((exn + job) \<times> poll_state) option"
where [code]:
  "wait_loop retrieve video_id poll_interval timeout s =
     (if elapsed s < timeout then
        (case retrieve video_id (polls s) of
           Inl e \<Rightarrow> Some (Inl e, s\<lparr>polls := Suc (polls s)\<rparr>)
         | Inr j \<Rightarrow>
            (let s1 = s\<lparr>polls := Suc (polls s),
                        printed := printed s @ [status_line (elapsed s) j]\<rparr>
             in if status j = ''completed'' then
                  Some (Inr j, s1\<lparr>printed := printed s1 @ [''  Video generation complete!'']\<rparr>)
                else if status j = ''failed'' then
                  Some (Inl (RuntimeError (failure_message j)), s1)
                else if poll_interval < 0 then
                  Some (Inl (ValueError ''sleep length must be non-negative''), s1)
                else
                  wait_loop retrieve video_id poll_interval timeout
                    (s1\<lparr>slept := slept s1 @ [poll_interval],
                        elapsed := elapsed s1 + poll_interval\<rparr>)))
      else Some (Inl (RuntimeError (timeout_message timeout video_id)), s))"

definition wait_banner :: "int \<Rightarrow> int \<Rightarrow> string" where
  "wait_banner poll_interval timeout =
     newline # ''Waiting for video to finish (polling every '' @ str_int poll_interval
       @ ''s, timeout '' @ str_int timeout @ ''s)...''"

definition wait_for_completion ::
  "retrieve_oracle \<Rightarrow> string \<Rightarrow> int \<Rightarrow> int \<Rightarrow> ((exn + job) \<times> poll_state) option"
where
  "wait_for_completion retrieve video_id poll_interval timeout =
     wait_loop retrieve video_id poll_interval timeout
       \<lparr>elapsed = 0, polls = 0, slept = [], printed = [wait_banner poll_interval timeout]\<rparr>"

subsection \<open>Vocabulary for the properties of the poll loop\<close>

text \<open>
  The \<open>k\<close>-th status check is non-terminal: the service returned a record whose
  status is neither \<open>completed\<close> nor \<open>failed\<close>.
\<close>

definition non_terminal :: "retrieve_oracle \<Rightarrow> string \<Rightarrow> nat \<Rightarrow> bool" where
  "non_terminal retrieve video_id k =
     (case retrieve video_id k of
        Inl e \<Rightarrow> False
      | Inr j \<Rightarrow> status j \<noteq> ''completed'' \<and> status j \<noteq> ''failed'')"

text \<open>
  The number of loop iterations still to come when \<open>elapsed = e\<close> and no check is
  terminal: the least \<open>n\<close> with \<open>e + n * poll_interval \<ge> timeout\<close> (for a positive
  interval).
\<close>

definition checks_until :: "int \<Rightarrow> int \<Rightarrow> int \<Rightarrow> nat" where
  "checks_until poll_interval timeout e =
     nat ((timeout - e + poll_interval - 1) div poll_interval)"

text \<open>
  Every way the loop started in state \<open>s\<close> can end with result \<open>res\<close> in state
  \<open>s'\<close>, paired with its cause: the record returned was retrieved last and is
  \<open>completed\<close>; the failure error comes from a record retrieved last that is
  \<open>failed\<close>; the client's own exception is passed on; \<open>time.sleep\<close> refused a
  negative interval; or the loop condition failed.
\<close>

definition outcome_ok ::
  "retrieve_oracle \<Rightarrow> string \<Rightarrow> int \<Rightarrow> int \<Rightarrow> poll_state \<Rightarrow> (exn + job) \<times> poll_state \<Rightarrow> bool"
where
  "outcome_ok retrieve vid p t s y = (case y of (res, s') \<Rightarrow>
     (case res of
        Inr j \<Rightarrow> status j = ''completed'' \<and> polls s < polls s'
                 \<and> retrieve vid (polls s' - 1) = Inr j
      | Inl e \<Rightarrow>
          (\<exists>j. polls s < polls s' \<and> retrieve vid (polls s' - 1) = Inr j
               \<and> status j = ''failed'' \<and> e = RuntimeError (failure_message j))
        \<or> (polls s < polls s' \<and> retrieve vid (polls s' - 1) = Inl e)
        \<or> (p < 0 \<and> e = ValueError ''sleep length must be non-negative'')
        \<or> (t \<le> elapsed s' \<and> e = RuntimeError (timeout_message t vid))))"

text \<open>Concrete services for the scenarios.\<close>

definition status_job :: "string \<Rightarrow> string \<Rightarrow> job" where
  "status_job vid st = \<lparr>job_id = vid, status = st, progress = None, error = None\<rparr>"

definition queued_running_completed :: retrieve_oracle where
  "queued_running_completed vid k =
     Inr (status_job vid
       (if k = 0 then ''queued'' else if k = 1 then ''running'' else ''completed''))"

definition always_status :: "string \<Rightarrow> retrieve_oracle" where
  "always_status st vid k = Inr (status_job vid st)"

section \<open>The artifact downloader: \<open>download_outputs\<close> (generate.py) and download_video.py\<close>

text \<open>
  The world the downloader acts on: the files on disk (path to content), the variants
  requested from the service in order, and the texts passed to \<open>print\<close> in order.
\<close>

type_synonym bytes = string

record world =
  files :: "string \<rightharpoonup> bytes"
  requested :: "string list"
  stdout :: "string list"

text \<open>
  What the downloader cannot control.  \<open>request_content video_id variant\<close> is the
  exception raised by \<open>client.videos.download_content(video_id=..., variant=...)\<close>,
  if any, and \<open>read_content video_id variant\<close> is the outcome of \<open>read()\<close> on the
  response: the bytes, or the exception raised.  \<open>open_wb path\<close> is the exception raised
  by \<open>open(path, "wb")\<close>, if any; opening truncates the file, and a write to a file
  that was opened is taken to succeed.  \<open>makedirs path\<close> is the exception raised by
  \<open>os.makedirs(path, exist_ok=True)\<close>, if any.  Only subclasses of \<open>Exception\<close> are
  modelled, which is what \<open>except Exception\<close> catches.
\<close>

record env =
  request_content :: "string \<Rightarrow> string \<Rightarrow> exn option"
  read_content :: "string \<Rightarrow> string \<Rightarrow> exn + bytes"
  open_wb :: "string \<Rightarrow> exn option"
  makedirs :: "string \<Rightarrow> exn option"

text \<open>
  The request followed at once by \<open>response.read()\<close>, as \<open>download_outputs\<close> does it
  (lines 234 to 238): the bytes, or the first exception raised.
\<close>

definition download_content :: "env \<Rightarrow> string \<Rightarrow> string \<Rightarrow> exn + bytes" where
  "download_content e video_id variant =
     (case request_content e video_id variant of
        Some x \<Rightarrow> Inl x
      | None \<Rightarrow> read_content e video_id variant)"

definition OUTPUT_DIR :: string where
  "OUTPUT_DIR = ''output''"

text \<open>
  \<open>f"{len(data) / 1024:.1f}"\<close>: the length divided by 1024, with one decimal.  The
  quotient is a dyadic rational, so the double holds it exactly (for lengths below
  \<open>2^53\<close>) and the text is its decimal rounding to tenths, ties to even.
\<close>

definition kb_tenths :: "nat \<Rightarrow> nat" where
  "kb_tenths n =
     (let q = (10 * n) div 1024; r = (10 * n) mod 1024
      in if r > 512 \<or> (r = 512 \<and> odd q) then q + 1 else q)"

definition fmt_kb :: "nat \<Rightarrow> string" where
  "fmt_kb n = str_nat (kb_tenths n div 10) @ ''.'' @ str_nat (kb_tenths n mod 10)"

text \<open>One iteration of the loop of \<open>download_outputs\<close>: the \<open>try\<close> block and its handler.\<close>

definition download_variant :: "env \<Rightarrow> string \<Rightarrow> string \<times> string \<Rightarrow> world \<Rightarrow> world" where
  "download_variant e video_id vp w =
     (case vp of (variant, filepath) \<Rightarrow>
        (let w1 = w\<lparr>stdout := stdout w @ [''  Downloading '' @ variant @ ''...''],
                    requested := requested w @ [variant]\<rparr>
         in case download_content e video_id variant of
              Inl x \<Rightarrow> w1\<lparr>stdout := stdout w1 @ [''    Skipped '' @ variant @ '': '' @ str_exn x]\<rparr>
            | Inr data \<Rightarrow>
               (case open_wb e filepath of
                  Some x \<Rightarrow>
                    w1\<lparr>stdout := stdout w1 @ [''    Skipped '' @ variant @ '': '' @ str_exn x]\<rparr>
                | None \<Rightarrow>
                    w1\<lparr>files := (files w1)(filepath \<mapsto> data),
                       stdout := stdout w1 @
                         [''    Saved: '' @ filepath @ '' ('' @ fmt_kb (length data) @ '' KB)'']\<rparr>)))"

text \<open>The dictionary \<open>variants\<close>, in insertion order.\<close>

definition variants_of :: "string \<Rightarrow> string \<Rightarrow> (string \<times> string) list" where
  "variants_of video_id prompt_name =
     (let base = OUTPUT_DIR @ ''/'' @ prompt_name @ ''_'' @ video_id
      in [(''spritesheet'', base @ ''_spritesheet.png''),
          (''thumbnail'', base @ ''_thumbnail.png''),
          (''video'', base @ ''.mp4'')])"

definition download_outputs ::
  "env \<Rightarrow> string \<Rightarrow> string \<Rightarrow> world \<Rightarrow> (exn + (string \<times> string) list) \<times> world"
where
  "download_outputs e video_id prompt_name w =
     (case makedirs e OUTPUT_DIR of
        Some x \<Rightarrow> (Inl x, w)
      | None \<Rightarrow>
         (let variants = variants_of video_id prompt_name
          in (Inr variants, foldl (\<lambda>w vp. download_variant e video_id vp w) w variants)))"

text \<open>
  download_video.py, from the check of \<open>sys.argv\<close> on (the client exists).  The result
  is the exit status: \<open>Inr 0\<close> a normal end, \<open>Inr 1\<close> the \<open>sys.exit(1)\<close>, \<open>Inl\<close> an
  exception that nothing caught.
\<close>

definition script_path :: "string \<Rightarrow> string \<Rightarrow> string" where
  "script_path video_id variant =
     ''output'' @ ''/'' @ video_id @ ''_'' @ variant @ ''.''
       @ (if variant = ''video'' then ''mp4'' else ''png'')"

text \<open>
  One iteration of the loop of download_video.py.  Here the file is opened before the
  response is read (\<open>f.write(resp.read())\<close> stands inside the \<open>with\<close> block): when
  the read raises, the file has been truncated and stays empty.
\<close>

definition script_variant :: "env \<Rightarrow> string \<Rightarrow> string \<Rightarrow> world \<Rightarrow> world" where
  "script_variant e video_id variant w =
     (let w1 = w\<lparr>stdout := stdout w @ [''Downloading '' @ variant @ ''...''],
                 requested := requested w @ [variant]\<rparr>
      in case request_content e video_id variant of
           Some x \<Rightarrow> w1\<lparr>stdout := stdout w1 @ [''  Failed: '' @ str_exn x]\<rparr>
         | None \<Rightarrow>
            (case open_wb e (script_path video_id variant) of
               Some x \<Rightarrow> w1\<lparr>stdout := stdout w1 @ [''  Failed: '' @ str_exn x]\<rparr>
             | None \<Rightarrow>
                (case read_content e video_id variant of
                   Inl x \<Rightarrow>
                     w1\<lparr>files := (files w1)(script_path video_id variant \<mapsto> []),
                        stdout := stdout w1 @ [''  Failed: '' @ str_exn x]\<rparr>
                 | Inr data \<Rightarrow>
                     w1\<lparr>files := (files w1)(script_path video_id variant \<mapsto> data),
                        stdout := stdout w1 @ [''  Saved: '' @ script_path video_id variant]\<rparr>)))"

definition download_video_script :: "env \<Rightarrow> string list \<Rightarrow> world \<Rightarrow> (exn + nat) \<times> world" where
  "download_video_script e argv w =
     (if length argv < 2 then
        (Inr 1, w\<lparr>stdout := stdout w @ [''Usage: uv run download_video.py <video_id>'']\<rparr>)
      else
        (case makedirs e ''output'' of
           Some x \<Rightarrow> (Inl x, w)
         | None \<Rightarrow>
            (Inr 0, foldl (\<lambda>w variant. script_variant e (argv ! 1) variant w) w
                      [''video'', ''thumbnail'', ''spritesheet''])))"

subsection \<open>Vocabulary and concrete services for the downloader\<close>

text \<open>The entries of a mapping whose file holds, after the run, what the service sent.\<close>

definition written_entries ::
  "env \<Rightarrow> string \<Rightarrow> world \<Rightarrow> (string \<times> string) list \<Rightarrow> (string \<times> string) list"
where
  "written_entries e video_id w vs =
     filter (\<lambda>(variant, filepath).
        (case download_content e video_id variant of
           Inl x \<Rightarrow> False
         | Inr data \<Rightarrow> files w filepath = Some data)) vs"

definition empty_world :: world where
  "empty_world = \<lparr>files = Map.empty, requested = [], stdout = []\<rparr>"

definition all_present :: env where
  "all_present =
     \<lparr>request_content = (\<lambda>video_id variant. None),
      read_content = (\<lambda>video_id variant. Inr (''data of '' @ variant)),
      open_wb = (\<lambda>path. None), makedirs = (\<lambda>path. None)\<rparr>"

definition video_absent :: env where
  "video_absent =
     \<lparr>request_content = (\<lambda>video_id variant.
         if variant = ''video'' then Some (APIError ''404 not found'') else None),
      read_content = (\<lambda>video_id variant. Inr (''data of '' @ variant)),
      open_wb = (\<lambda>path. None), makedirs = (\<lambda>path. None)\<rparr>"

text \<open>The service sends the \<open>thumbnail\<close> response, but reading it fails.\<close>

definition thumbnail_read_fails :: env where
  "thumbnail_read_fails =
     \<lparr>request_content = (\<lambda>video_id variant. None),
      read_content = (\<lambda>video_id variant.
         if variant = ''thumbnail'' then Inl (APIError ''connection reset'')
         else Inr (''data of '' @ variant)),
      open_wb = (\<lambda>path. None), makedirs = (\<lambda>path. None)\<rparr>"

text \<open>
  How one attempt ended, read off the final world \<open>w'\<close> (the world before the run is
  \<open>w\<close>): the file holds the bytes the service sent, or the attempt failed, the file is
  as it was before the run and the failure was printed (\<open>report\<close> builds the printed
  text from the exception).
\<close>

definition attempt_settled ::
  "env \<Rightarrow> string \<Rightarrow> world \<Rightarrow> world \<Rightarrow> (exn \<Rightarrow> string) \<Rightarrow> string \<Rightarrow> string \<Rightarrow> bool"
where
  "attempt_settled e video_id w w' report variant filepath =
     (case download_content e video_id variant of
        Inl x \<Rightarrow> report x \<in> set (stdout w') \<and> files w' filepath = files w filepath
      | Inr data \<Rightarrow>
         (case open_wb e filepath of
            Some x \<Rightarrow> report x \<in> set (stdout w') \<and> files w' filepath = files w filepath
          | None \<Rightarrow> files w' filepath = Some data))"

text \<open>
  The same for one attempt of download_video.py, which opens the file before it reads
  the response: a failed request or a failed open leaves the file as it was and is
  printed; a failed read is printed and leaves the file empty; otherwise the file holds
  the bytes the service sent.
\<close>

definition script_attempt_settled ::
  "env \<Rightarrow> string \<Rightarrow> world \<Rightarrow> world \<Rightarrow> string \<Rightarrow> bool"
where
  "script_attempt_settled e video_id w w' variant =
     (case request_content e video_id variant of
        Some x \<Rightarrow> (''  Failed: '' @ str_exn x) \<in> set (stdout w')
                  \<and> files w' (script_path video_id variant) = files w (script_path video_id variant)
      | None \<Rightarrow>
         (case open_wb e (script_path video_id variant) of
            Some x \<Rightarrow> (''  Failed: '' @ str_exn x) \<in> set (stdout w')
                      \<and> files w' (script_path video_id variant)
                          = files w (script_path video_id variant)
          | None \<Rightarrow>
             (case read_content e video_id variant of
                Inl x \<Rightarrow> (''  Failed: '' @ str_exn x) \<in> set (stdout w')
                         \<and> files w' (script_path video_id variant) = Some []
              | Inr data \<Rightarrow> files w' (script_path video_id variant) = Some data)))"

section \<open>Images: the part of Pillow the scripts use\<close>

text \<open>
  An image is its mode, its size \<open>(width, height)\<close> and its pixel data.  The pixel
  arithmetic of Pillow (resampling filters, alpha blending) is not part of the
  repository, so the pixel data is kept symbolic: a term that records from which
  operations, on which operands, the pixels come.
\<close>

datatype resample = NEAREST | LANCZOS

datatype pixels =
    Decoded string
  | Fill "nat list"
  | Resized pixels resample "int \<times> int"
  | Pasted pixels pixels "int \<times> int" "pixels option"
  | Band pixels nat
  | Converted pixels string

record image =
  mode :: string
  im_size :: "int \<times> int"
  pixels :: pixels

text \<open>\<open>Image.new(mode, size, color)\<close>: negative sides are refused.\<close>

definition Image_new :: "string \<Rightarrow> int \<times> int \<Rightarrow> nat list \<Rightarrow> exn + image" where
  "Image_new m sz color =
     (if fst sz < 0 \<or> snd sz < 0 then Inl (ValueError ''Width and height must be >= 0'')
      else Inr \<lparr>mode = m, im_size = sz, pixels = Fill color\<rparr>)"

text \<open>
  \<open>image.resize(size, resample)\<close>: a request for the size the image already has gives a
  copy; otherwise both sides must be at least 1, and the result has the requested size
  and the mode of the source.  Modes \<open>1\<close> and \<open>P\<close> are always resampled with
  \<open>NEAREST\<close>.
\<close>

definition resize :: "image \<Rightarrow> int \<times> int \<Rightarrow> resample \<Rightarrow> exn + image" where
  "resize im sz r =
     (if im_size im = sz then Inr im
      else if fst sz < 1 \<or> snd sz < 1 then Inl (ValueError ''height and width must be > 0'')
      else Inr \<lparr>mode = mode im, im_size = sz,
                pixels = Resized (pixels im)
                           (if mode im = ''1'' \<or> mode im = ''P'' then NEAREST else r) sz\<rparr>)"

text \<open>
  \<open>dst.paste(src, box, mask)\<close> with a 2-tuple box (the upper left corner): the
  destination keeps its mode and size; a mask must have the size of the source.  The
  mutated destination is returned.
\<close>

definition paste :: "image \<Rightarrow> image \<Rightarrow> int \<times> int \<Rightarrow> image option \<Rightarrow> exn + image" where
  "paste dst src box msk =
     (case msk of
        None \<Rightarrow> Inr (dst\<lparr>pixels := Pasted (pixels dst) (pixels src) box None\<rparr>)
      | Some m \<Rightarrow>
          if im_size m \<noteq> im_size src then Inl (ValueError ''images do not match'')
          else Inr (dst\<lparr>pixels := Pasted (pixels dst) (pixels src) box (Some (pixels m))\<rparr>))"

text \<open>\<open>image.split()[3]\<close> of an \<open>RGBA\<close> image: its alpha band, an \<open>L\<close> image.\<close>

definition alpha_band :: "image \<Rightarrow> image" where
  "alpha_band im = \<lparr>mode = ''L'', im_size = im_size im, pixels = Band (pixels im) 3\<rparr>"

definition convert :: "image \<Rightarrow> string \<Rightarrow> image" where
  "convert im m = \<lparr>mode = m, im_size = im_size im, pixels = Converted (pixels im) m\<rparr>"

text \<open>The modes that carry an alpha channel (a band \<open>A\<close> or \<open>a\<close>).\<close>

definition has_alpha_channel :: "string \<Rightarrow> bool" where
  "has_alpha_channel m = (m \<in> set [''RGBA'', ''LA'', ''PA'', ''RGBa'', ''La''])"

section \<open>The submission image: \<open>resize_image_to_match\<close> (generate.py)\<close>

subsection \<open>\<open>width, height = map(int, target_size.split("x"))\<close>\<close>

fun split_on :: "char \<Rightarrow> string \<Rightarrow> string list" where
  "split_on c [] = [[]]"
| "split_on c (x # xs) =
     (if x = c then [] # split_on c xs
      else (case split_on c xs of [] \<Rightarrow> [[x]] | g # gs \<Rightarrow> (x # g) # gs))"

definition is_space :: "char \<Rightarrow> bool" where
  "is_space c = (let n = (of_char c :: nat) in (9 \<le> n \<and> n \<le> 13) \<or> (28 \<le> n \<and> n \<le> 32))"

definition is_digit :: "char \<Rightarrow> bool" where
  "is_digit c = (let n = (of_char c :: nat) in 48 \<le> n \<and> n \<le> 57)"

definition strip :: "string \<Rightarrow> string" where
  "strip s = rev (dropWhile is_space (rev (dropWhile is_space s)))"

definition digits_value :: "string \<Rightarrow> int" where
  "digits_value ds = foldl (\<lambda>a c. 10 * a + (int (of_char c) - 48)) 0 ds"

text \<open>
  \<open>int(s)\<close> on a string of ASCII characters: surrounding whitespace is dropped, one
  sign is allowed, and the digits may be grouped with single underscores.  The text of
  the \<open>ValueError\<close> is cut before the quoted argument.
\<close>

definition py_int :: "string \<Rightarrow> exn + int" where
  "py_int s =
     (let b = strip s;
          neg = (b \<noteq> [] \<and> hd b = CHR ''-'');
          body = (if b \<noteq> [] \<and> (hd b = CHR ''-'' \<or> hd b = CHR ''+'') then tl b else b);
          groups = split_on CHR ''_'' body
      in if list_all (\<lambda>g. g \<noteq> [] \<and> list_all is_digit g) groups
         then Inr ((if neg then - 1 else 1) * digits_value (concat groups))
         else Inl (ValueError ''invalid literal for int() with base 10''))"

text \<open>
  The unpacking draws from the lazy \<open>map\<close>: the parts are converted in order, and a
  third part is converted before the unpacking finds it one too many.
\<close>

definition parse_size :: "string \<Rightarrow> exn + int \<times> int" where
  "parse_size target_size =
     (case split_on CHR ''x'' target_size of
        [] \<Rightarrow> Inl (ValueError ''not enough values to unpack (expected 2, got 0)'')
      | [a] \<Rightarrow>
          (case py_int a of
             Inl x \<Rightarrow> Inl x
           | Inr w \<Rightarrow> Inl (ValueError ''not enough values to unpack (expected 2, got 1)''))
      | a # b # rest \<Rightarrow>
          (case py_int a of
             Inl x \<Rightarrow> Inl x
           | Inr w \<Rightarrow>
              (case py_int b of
                 Inl x \<Rightarrow> Inl x
               | Inr h \<Rightarrow>
                  (case rest of
                     [] \<Rightarrow> Inr (w, h)
                   | c # cs \<Rightarrow>
                      (case py_int c of
                         Inl x \<Rightarrow> Inl x
                       | Inr d \<Rightarrow> Inl (ValueError ''too many values to unpack (expected 2)''))))))"

subsection \<open>The function\<close>

text \<open>
  What the function reads from outside: \<open>open_image path\<close> is the outcome of
  \<open>Image.open(path)\<close> with the pixel data loaded, and \<open>png_refuses im\<close> is the
  exception with which Pillow's PNG writer refuses an image, if it does (it has no
  encoding for modes such as \<open>CMYK\<close>).
\<close>

record pil_env =
  open_image :: "string \<Rightarrow> exn + image"
  png_refuses :: "image \<Rightarrow> exn option"

text \<open>
  The result stands for the returned \<open>BytesIO\<close> buffer, rewound to its start: the
  image whose PNG encoding the buffer holds.
\<close>

definition resize_image_to_match :: "pil_env \<Rightarrow> string \<Rightarrow> string \<Rightarrow> exn + image" where
  "resize_image_to_match e image_path target_size =
     (case parse_size target_size of
        Inl x \<Rightarrow> Inl x
      | Inr (width, height) \<Rightarrow>
         (case open_image e image_path of
            Inl x \<Rightarrow> Inl x
          | Inr img \<Rightarrow>
             (case resize img (width, height) NEAREST of
                Inl x \<Rightarrow> Inl x
              | Inr img_resized \<Rightarrow>
                 (case (if mode img_resized = ''RGBA'' then
                          (case Image_new ''RGB'' (im_size img_resized) [255, 255, 255] of
                             Inl x \<Rightarrow> Inl x
                           | Inr bg \<Rightarrow> paste bg img_resized (0, 0) (Some (alpha_band img_resized)))
                        else Inr img_resized) of
                    Inl x \<Rightarrow> Inl x
                  | Inr final \<Rightarrow>
                     (case png_refuses e final of
                        Some x \<Rightarrow> Inl x
                      | None \<Rightarrow> Inr final)))))"

subsection \<open>Concrete inputs for the submission image\<close>

definition source_image :: "string \<Rightarrow> int \<times> int \<Rightarrow> string \<Rightarrow> image" where
  "source_image m sz path = \<lparr>mode = m, im_size = sz, pixels = Decoded path\<rparr>"

definition one_file :: "string \<Rightarrow> int \<times> int \<Rightarrow> pil_env" where
  "one_file m sz =
     \<lparr>open_image = (\<lambda>path. Inr (source_image m sz path)), png_refuses = (\<lambda>im. None)\<rparr>"

section \<open>Floating point: the arithmetic of \<open>resize_with_padding\<close>\<close>

text \<open>
  Python's \<open>float\<close> is IEEE 754 binary64.  A finite double is a rational number, and
  division, multiplication and the conversion from \<open>int\<close> each return the exact result
  rounded to the nearest double, ties to the even significand.  \<open>rd\<close> is that
  rounding, for values in the normal range (magnitude from \<open>2^-1022\<close> up to
  \<open>2^1024\<close>), where a double has a significand of 53 bits; image sizes are far inside
  this range.
\<close>

function floorlog2 :: "int \<Rightarrow> nat" where
  "floorlog2 n = (if n < 2 then 0 else Suc (floorlog2 (n div 2)))"
  by pat_completeness auto
termination
  by (relation "measure nat") auto

declare floorlog2.simps [simp del]

function up2 :: "int \<Rightarrow> int \<Rightarrow> nat" where
  "up2 a b = (if a \<le> 0 \<or> b \<le> a then 0 else Suc (up2 (2 * a) b))"
  by pat_completeness auto
termination
  by (relation "measure (\<lambda>(a, b). nat (b - a))") auto

declare up2.simps [simp del]

text \<open>The binary exponent \<open>e\<close> of a positive rational \<open>x\<close>: \<open>2^e \<le> x < 2^(e+1)\<close>.\<close>

definition binary_exponent :: "rat \<Rightarrow> int" where
  "binary_exponent x =
     (case quotient_of x of (a, b) \<Rightarrow>
        if b \<le> a then int (floorlog2 (a div b)) else - int (up2 a b))"

definition round_half_even :: "rat \<Rightarrow> int" where
  "round_half_even m =
     (let f = \<lfloor>m\<rfloor>; d = m - of_int f
      in if d < 1 / 2 then f else if 1 / 2 < d then f + 1 else if even f then f else f + 1)"

definition rd :: "rat \<Rightarrow> rat" where
  "rd x =
     (if x = 0 then 0
      else let q = 2 powi (binary_exponent \<bar>x\<bar> - 52)
           in sgn x * of_int (round_half_even (\<bar>x\<bar> / q)) * q)"

text \<open>\<open>int(x)\<close> of a float: truncation towards zero.\<close>

definition trunc :: "rat \<Rightarrow> int" where
  "trunc x = (if 0 \<le> x then \<lfloor>x\<rfloor> else \<lceil>x\<rceil>)"

text \<open>
  The first lines of \<open>resize_with_padding\<close>:
  \<^verbatim>\<open>scale = min(target_size / img_width, target_size / img_height)\<close>,
  \<^verbatim>\<open>new_width = int(img_width * scale)\<close>, \<^verbatim>\<open>new_height = int(img_height * scale)\<close>.
  The true division of two integers is correctly rounded; the product converts the
  integer to a double first.
\<close>

definition scale_of :: "int \<Rightarrow> int \<Rightarrow> int \<Rightarrow> rat" where
  "scale_of target_size img_width img_height =
     min (rd (of_int target_size / of_int img_width))
         (rd (of_int target_size / of_int img_height))"

definition scaled_size :: "int \<Rightarrow> int \<Rightarrow> int \<Rightarrow> exn + int \<times> int" where
  "scaled_size target_size img_width img_height =
     (if img_width = 0 \<or> img_height = 0 then Inl (ZeroDivisionError ''division by zero'')
      else let scale = scale_of target_size img_width img_height
           in Inr (trunc (rd (rd (of_int img_width) * scale)),
                   trunc (rd (rd (of_int img_height) * scale))))"


section \<open>The sprite sheet composer: create_spritesheet.py\<close>

definition FRAME_SIZE :: int where
  "FRAME_SIZE = 128"

definition BACKGROUND_COLOR :: "nat list" where
  "BACKGROUND_COLOR = [255, 255, 255]"

definition INPUT_DIR :: string where
  "INPUT_DIR = ''output/sprite_frames''"

definition OUTPUT_FILE :: string where
  "OUTPUT_FILE = ''output/spritesheet.png''"

subsection \<open>\<open>resize_with_padding\<close>\<close>

definition resize_with_padding :: "image \<Rightarrow> int \<Rightarrow> nat list \<Rightarrow> exn + image" where
  "resize_with_padding im target_size bg_color =
     (case scaled_size target_size (fst (im_size im)) (snd (im_size im)) of
        Inl x \<Rightarrow> Inl x
      | Inr (new_width, new_height) \<Rightarrow>
         (case resize im (new_width, new_height) LANCZOS of
            Inl x \<Rightarrow> Inl x
          | Inr resized \<Rightarrow>
             (case Image_new ''RGBA'' (target_size, target_size) (bg_color @ [255]) of
                Inl x \<Rightarrow> Inl x
              | Inr bg \<Rightarrow>
                 (let x_offset = (target_size - new_width) div 2;
                      y_offset = (target_size - new_height) div 2
                  in paste bg resized (x_offset, y_offset)
                       (if mode resized = ''RGBA'' then Some resized else None)))))"

subsection \<open>\<open>main\<close>\<close>

text \<open>
  What the composer reads from outside.  \<open>iterdir\<close> is the outcome of listing
  \<open>INPUT_DIR\<close>: the names of its entries, each with the answer of \<open>is_dir()\<close>, or the
  exception raised.  \<open>entries folder\<close> are the names in a folder, \<open>load_frame path\<close>
  is the outcome of \<open>Image.open(path)\<close> with the pixel data loaded, \<open>mkdir_fails\<close> and
  \<open>save_fails\<close> are the exceptions of \<open>OUTPUT_FILE.parent.mkdir\<close> and of
  \<open>spritesheet.save\<close>, if any.
\<close>

record sheet_env =
  iterdir :: "exn + (string \<times> bool) list"
  entries :: "string \<Rightarrow> string list"
  load_frame :: "string \<Rightarrow> exn + image"
  mkdir_fails :: "exn option"
  save_fails :: "image \<Rightarrow> exn option"

record disk =
  images :: "string \<rightharpoonup> image"
  console :: "string list"

text \<open>\<open>folder.glob("frame_*.png")\<close>: the names that start with \<open>frame_\<close> and end with \<open>.png\<close>.\<close>

definition matches_frame :: "string \<Rightarrow> bool" where
  "matches_frame name =
     (10 \<le> length name \<and> take 6 name = ''frame_''
        \<and> drop (length name - 4) name = ''.png'')"

text \<open>
  Paths sort by their parts; paths with the same parent sort by name, character by
  character.
\<close>

definition frames_of :: "sheet_env \<Rightarrow> string \<Rightarrow> string list" where
  "frames_of e folder =
     map (\<lambda>name. INPUT_DIR @ ''/'' @ folder @ ''/'' @ name)
       (sort (filter matches_frame (entries e folder)))"

text \<open>
  The body of the inner loop up to the paste: load, resize (with padding for the
  \<open>hatching\<close> animation) and flatten to \<open>RGB\<close>.
\<close>

definition process_frame :: "sheet_env \<Rightarrow> string \<Rightarrow> string \<Rightarrow> exn + image" where
  "process_frame e folder frame_path =
     (case load_frame e frame_path of
        Inl x \<Rightarrow> Inl x
      | Inr frame \<Rightarrow>
         (case (if folder = ''hatching''
                then resize_with_padding frame FRAME_SIZE BACKGROUND_COLOR
                else resize frame (FRAME_SIZE, FRAME_SIZE) LANCZOS) of
            Inl x \<Rightarrow> Inl x
          | Inr frame_resized \<Rightarrow>
             if mode frame_resized = ''RGBA'' then
               (case Image_new ''RGB'' (FRAME_SIZE, FRAME_SIZE) BACKGROUND_COLOR of
                  Inl x \<Rightarrow> Inl x
                | Inr bg \<Rightarrow> paste bg frame_resized (0, 0) (Some (alpha_band frame_resized)))
             else if mode frame_resized \<noteq> ''RGB'' then Inr (convert frame_resized ''RGB'')
             else Inr frame_resized))"

fun paste_row ::
  "sheet_env \<Rightarrow> string \<Rightarrow> int \<Rightarrow> int \<Rightarrow> string list \<Rightarrow> image \<Rightarrow> exn + image"
where
  "paste_row e folder row col [] spritesheet = Inr spritesheet"
| "paste_row e folder row col (frame_path # rest) spritesheet =
     (case process_frame e folder frame_path of
        Inl x \<Rightarrow> Inl x
      | Inr frame_resized \<Rightarrow>
         (case paste spritesheet frame_resized (col * FRAME_SIZE, row * FRAME_SIZE) None of
            Inl x \<Rightarrow> Inl x
          | Inr s \<Rightarrow> paste_row e folder row (col + 1) rest s))"

text \<open>
  The outer loop.  \<open>animations\<close> is the dictionary from folder name to frame list;
  the frames of a row are looked up in it.
\<close>

fun paste_rows ::
  "sheet_env \<Rightarrow> (string \<rightharpoonup> string list) \<Rightarrow> int \<Rightarrow> string list \<Rightarrow> image \<Rightarrow> exn + image"
where
  "paste_rows e animations row [] spritesheet = Inr spritesheet"
| "paste_rows e animations row (folder # rest) spritesheet =
     (case paste_row e folder row 0
             (case animations folder of Some frames \<Rightarrow> frames | None \<Rightarrow> []) spritesheet of
        Inl x \<Rightarrow> Inl x
      | Inr s \<Rightarrow> paste_rows e animations (row + 1) rest s)"

text \<open>\<open>repr\<close> of a list of names (names without quotes, backslashes or control characters).\<close>

fun join :: "string \<Rightarrow> string list \<Rightarrow> string" where
  "join sep [] = []"
| "join sep [x] = x"
| "join sep (x # y # ys) = x @ sep @ join sep (y # ys)"

definition repr_names :: "string list \<Rightarrow> string" where
  "repr_names ns = ''['' @ join '', '' (map (\<lambda>n. [CHR 0x27] @ n @ [CHR 0x27]) ns) @ '']''"

text \<open>
  The first loop: it fills \<open>animations\<close>, tracks \<open>max_frames\<close> and prints one line per
  folder.
\<close>

fun load_all ::
  "sheet_env \<Rightarrow> string list \<Rightarrow> (string \<rightharpoonup> string list) \<times> nat \<times> string list
     \<Rightarrow> (string \<rightharpoonup> string list) \<times> nat \<times> string list"
where
  "load_all e [] acc = acc"
| "load_all e (folder # rest) (animations, max_frames, printed_lines) =
     (let frames = frames_of e folder
      in load_all e rest
           (animations(folder \<mapsto> frames), max max_frames (length frames),
            printed_lines @ [''  '' @ folder @ '': '' @ str_nat (length frames) @ '' frames'']))"

definition main :: "sheet_env \<Rightarrow> disk \<Rightarrow> (exn + unit) \<times> disk" where
  "main e d =
     (case iterdir e of
        Inl x \<Rightarrow> (Inl x, d)
      | Inr listing \<Rightarrow>
         (let animation_folders = sort (map fst (filter snd listing))
          in if animation_folders = [] then
               (Inr (), d\<lparr>console := console d @ [''No animation folders found in '' @ INPUT_DIR]\<rparr>)
             else
               (let d1 = d\<lparr>console := console d @
                            [''Found '' @ str_nat (length animation_folders) @ '' animations: ''
                               @ repr_names animation_folders]\<rparr>;
                    (animations, max_frames, printed_lines) =
                       load_all e animation_folders (Map.empty, 0, []);
                    d2 = d1\<lparr>console := console d1 @ printed_lines\<rparr>
                in if max_frames = 0 then
                     (Inr (), d2\<lparr>console := console d2 @ [''No frames found in any animation folder'']\<rparr>)
                   else
                     (let num_animations = int (length animation_folders);
                          sheet_width = FRAME_SIZE * int max_frames;
                          sheet_height = FRAME_SIZE * num_animations;
                          d3 = d2\<lparr>console := console d2 @
                                 [newline # ''Creating sprite sheet: '' @ str_int sheet_width @ ''x''
                                    @ str_int sheet_height @ '' ('' @ str_nat max_frames
                                    @ '' columns x '' @ str_int num_animations @ '' rows)'']\<rparr>
                      in case Image_new ''RGB'' (sheet_width, sheet_height) BACKGROUND_COLOR of
                           Inl x \<Rightarrow> (Inl x, d3)
                         | Inr blank \<Rightarrow>
                            (case paste_rows e animations 0 animation_folders blank of
                               Inl x \<Rightarrow> (Inl x, d3)
                             | Inr spritesheet \<Rightarrow>
                                (case mkdir_fails e of
                                   Some x \<Rightarrow> (Inl x, d3)
                                 | None \<Rightarrow>
                                    (case save_fails e spritesheet of
                                       Some x \<Rightarrow> (Inl x, d3)
                                     | None \<Rightarrow>
                                        (Inr (),
                                         d3\<lparr>images := (images d3)(OUTPUT_FILE \<mapsto> spritesheet),
                                            console := console d3 @
                                              [newline # ''Saved sprite sheet to '' @ OUTPUT_FILE]\<rparr>))))))))"

subsection \<open>Vocabulary and concrete inputs for the composer\<close>

definition empty_disk :: disk where
  "empty_disk = \<lparr>images = Map.empty, console = []\<rparr>"

text \<open>The animation folders of a listing, and the frame count of each.\<close>

definition folders_of :: "(string \<times> bool) list \<Rightarrow> string list" where
  "folders_of listing = sort (map fst (filter snd listing))"

definition frame_counts :: "sheet_env \<Rightarrow> (string \<times> bool) list \<Rightarrow> nat list" where
  "frame_counts e listing = map (\<lambda>folder. length (frames_of e folder)) (folders_of listing)"

text \<open>Every frame of every animation folder loads and resizes.\<close>

definition frames_ok :: "sheet_env \<Rightarrow> (string \<times> bool) list \<Rightarrow> bool" where
  "frames_ok e listing =
     list_all (\<lambda>folder. list_all (\<lambda>p. case process_frame e folder p of Inl x \<Rightarrow> False | Inr im \<Rightarrow> True)
          (frames_of e folder))
       (folders_of listing)"

definition frame_image :: "int \<times> int \<Rightarrow> string \<Rightarrow> image" where
  "frame_image sz path = \<lparr>mode = ''RGBA'', im_size = sz, pixels = Decoded path\<rparr>"

definition walk_idle :: sheet_env where
  "walk_idle =
     \<lparr>iterdir = Inr [(''walk'', True), (''idle'', True), (''notes.txt'', False)],
      entries = (\<lambda>folder.
         if folder = ''walk'' then [''frame_002.png'', ''frame_001.png'', ''frame_003.png'', ''x.txt'']
         else if folder = ''idle'' then [''frame_001.png'', ''frame_002.png'']
         else []),
      load_frame = (\<lambda>path. Inr (frame_image (640, 480) path)),
      mkdir_fails = None, save_fails = (\<lambda>im. None)\<rparr>"

definition empty_sets :: sheet_env where
  "empty_sets =
     \<lparr>iterdir = Inr [(''walk'', True), (''idle'', True)],
      entries = (\<lambda>folder. [''readme.txt'']),
      load_frame = (\<lambda>path. Inl (OSError ''no such file'')),
      mkdir_fails = None, save_fails = (\<lambda>im. None)\<rparr>"

definition no_sets :: sheet_env where
  "no_sets =
     \<lparr>iterdir = Inr [(''notes.txt'', False)],
      entries = (\<lambda>folder. []),
      load_frame = (\<lambda>path. Inl (OSError ''no such file'')),
      mkdir_fails = None, save_fails = (\<lambda>im. None)\<rparr>"

section \<open>Properties of the poll loop\<close>

subsection \<open>One iteration\<close>

lemma wait_loop_continue:
  "elapsed s < t \<Longrightarrow> retrieve vid (polls s) = Inr j \<Longrightarrow> status j \<noteq> ''completed'' \<Longrightarrow>
   status j \<noteq> ''failed'' \<Longrightarrow> 0 \<le> p \<Longrightarrow>
   wait_loop retrieve vid p t s =
     wait_loop retrieve vid p t
       (s\<lparr>polls := Suc (polls s), printed := printed s @ [status_line (elapsed s) j],
          slept := slept s @ [p], elapsed := elapsed s + p\<rparr>)"
  by (subst wait_loop.simps) (simp add: Let_def)

lemma wait_loop_completed:
  "elapsed s < t \<Longrightarrow> retrieve vid (polls s) = Inr j \<Longrightarrow> status j = ''completed'' \<Longrightarrow>
   wait_loop retrieve vid p t s =
     Some (Inr j, s\<lparr>polls := Suc (polls s),
                    printed := printed s @ [status_line (elapsed s) j,
                                            ''  Video generation complete!'']\<rparr>)"
  by (subst wait_loop.simps) (simp add: Let_def)

lemma wait_loop_timed_out:
  "\<not> elapsed s < t \<Longrightarrow>
   wait_loop retrieve vid p t s = Some (Inl (RuntimeError (timeout_message t vid)), s)"
  by (subst wait_loop.simps) simp

subsection \<open>Counting the iterations\<close>

lemma checks_until_0: "0 < p \<Longrightarrow> checks_until p t e = 0 \<longleftrightarrow> t \<le> e"
proof -
  assume p: "0 < p"
  have "(t - e + p - 1) div p \<le> 0 \<longleftrightarrow> \<not> (0 < (t - e + p - 1) div p)" by linarith
  also have "\<dots> \<longleftrightarrow> \<not> (p \<le> t - e + p - 1)" using p by (simp add: pos_imp_zdiv_pos_iff)
  also have "\<dots> \<longleftrightarrow> t \<le> e" by linarith
  finally show ?thesis by (simp add: checks_until_def)
qed

lemma checks_until_step:
  "0 < p \<Longrightarrow> e < t \<Longrightarrow> checks_until p t e = Suc (checks_until p t (e + p))"
proof -
  assume p: "0 < p" and lt: "e < t"
  define x where "x = t - (e + p) + p - 1"
  have eq: "t - e + p - 1 = x + p" by (simp add: x_def)
  have nn: "0 \<le> x div p"
    using p lt by (simp add: x_def pos_imp_zdiv_nonneg_iff)
  have "(x + p) div p = x div p + 1"
    using p div_add_self2 [of p x] by simp
  then have "nat ((x + p) div p) = Suc (nat (x div p))"
    using nn by (simp add: nat_add_distrib)
  then have "nat ((t - e + p - 1) div p) = Suc (nat (x div p))"
    by (simp only: eq)
  then show ?thesis by (simp add: checks_until_def x_def)
qed

lemma checks_until_multiple:
  assumes p: "0 < p"
  shows "p * int (checks_until p t 0) = t \<longleftrightarrow> 0 \<le> t \<and> p dvd t"
proof
  assume "p * int (checks_until p t 0) = t"
  then have "t = p * int (checks_until p t 0)" by simp
  then show "0 \<le> t \<and> p dvd t"
    using p by (metis dvd_triv_left mult_nonneg_nonneg of_nat_0_le_iff less_imp_le)
next
  assume a: "0 \<le> t \<and> p dvd t"
  then obtain q where q: "t = p * q" by (auto elim: dvdE)
  with a p have q0: "0 \<le> q" by (simp add: zero_le_mult_iff)
  define r where "r = p - 1"
  have "(r + p * q) div p = q + r div p"
    using p div_mult_self2 [of p r q] by simp
  moreover have "r div p = 0" using p by (simp add: r_def div_pos_pos_trivial)
  moreover have "t - 0 + p - 1 = r + p * q" by (simp add: r_def q)
  ultimately have "(t - 0 + p - 1) div p = q" by simp
  then have "checks_until p t 0 = nat q" by (simp only: checks_until_def)
  then show "p * int (checks_until p t 0) = t" using q q0 by simp
qed

subsection \<open>A run of non-terminal checks ends in the timeout error\<close>

lemma wait_loop_runs_out:
  assumes p: "0 < p"
  shows "n = checks_until p t (elapsed s) \<Longrightarrow>
         (\<forall>k<n. non_terminal retrieve vid (polls s + k)) \<Longrightarrow>
         \<exists>s'. wait_loop retrieve vid p t s = Some (Inl (RuntimeError (timeout_message t vid)), s')
            \<and> elapsed s' = elapsed s + p * int n \<and> slept s' = slept s @ replicate n p
            \<and> polls s' = polls s + n"
proof (induction n arbitrary: s)
  case 0
  then have "t \<le> elapsed s" using checks_until_0 [OF p, of t "elapsed s"] by simp
  then show ?case by (simp add: wait_loop_timed_out)
next
  case (Suc n)
  have lt: "elapsed s < t"
    using Suc.prems(1) checks_until_0 [OF p, of t "elapsed s"] by (cases "elapsed s < t") auto
  from Suc.prems(2) have "non_terminal retrieve vid (polls s + 0)" by blast
  then obtain j where j: "retrieve vid (polls s) = Inr j" "status j \<noteq> ''completed''"
      "status j \<noteq> ''failed''"
    by (auto simp: non_terminal_def split: sum.splits)
  let ?s1 = "s\<lparr>polls := Suc (polls s), printed := printed s @ [status_line (elapsed s) j],
          slept := slept s @ [p], elapsed := elapsed s + p\<rparr>"
  have step: "wait_loop retrieve vid p t s = wait_loop retrieve vid p t ?s1"
    using wait_loop_continue [of s t retrieve vid j p] lt j p by simp
  have n: "n = checks_until p t (elapsed ?s1)"
    using Suc.prems(1) checks_until_step [OF p lt] by simp
  have nt: "\<forall>k<n. non_terminal retrieve vid (polls ?s1 + k)"
    using Suc.prems(2) by (auto dest: spec [where x = "Suc k" for k])
  from Suc.IH [OF n nt] obtain s' where
    "wait_loop retrieve vid p t ?s1 = Some (Inl (RuntimeError (timeout_message t vid)), s')"
    "elapsed s' = elapsed ?s1 + p * int n" "slept s' = slept ?s1 @ replicate n p"
    "polls s' = polls ?s1 + n"
    by blast
  then show ?case using step by (simp add: algebra_simps replicate_append_same)
qed

subsection \<open>Every outcome has its cause\<close>

lemma outcome_ok_weaken:
  "outcome_ok retrieve vid p t s1 y \<Longrightarrow> polls s \<le> polls s1 \<Longrightarrow> outcome_ok retrieve vid p t s y"
  unfolding outcome_ok_def
  by (cases y; cases "fst y") auto

lemma wait_loop_outcome:
  assumes run: "wait_loop retrieve0 vid0 p0 t0 s0 = Some y0"
  shows "outcome_ok retrieve0 vid0 p0 t0 s0 y0"
proof (rule wait_loop.raw_induct [where P = outcome_ok, OF _ run], goal_cases)
  case (1 wl retrieve vid p t s y)
  obtain res s' where y: "y = (res, s')" by (cases y)
  show ?case
  proof (cases "elapsed s < t")
    case False
    with 1(2) y show ?thesis by (auto simp: outcome_ok_def)
  next
    case True
    show ?thesis
    proof (cases "retrieve vid (polls s)")
      case (Inl e)
      with True 1(2) y have "res = Inl e" "s' = s\<lparr>polls := Suc (polls s)\<rparr>" by simp_all
      then show ?thesis using Inl y by (simp add: outcome_ok_def)
    next
      case (Inr j)
      consider (c) "status j = ''completed''"
        | (f) "status j \<noteq> ''completed''" "status j = ''failed''"
        | (n) "status j \<noteq> ''completed''" "status j \<noteq> ''failed''" "p < 0"
        | (go) "status j \<noteq> ''completed''" "status j \<noteq> ''failed''" "\<not> p < 0"
        by blast
      then show ?thesis
      proof cases
        case c
        with True Inr 1(2) y
        have "res = Inr j" "polls s' = Suc (polls s)" by (auto simp: Let_def)
        then show ?thesis using c Inr y by (simp add: outcome_ok_def)
      next
        case f
        with True Inr 1(2) y
        have "res = Inl (RuntimeError (failure_message j))" "polls s' = Suc (polls s)"
          by (auto simp: Let_def)
        then show ?thesis using f Inr y by (simp add: outcome_ok_def)
      next
        case n
        with True Inr 1(2) y
        have "res = Inl (ValueError ''sleep length must be non-negative'')"
          by (auto simp: Let_def)
        then show ?thesis using n y by (simp add: outcome_ok_def)
      next
        case go
        let ?s1 = "s\<lparr>polls := Suc (polls s), printed := printed s @ [status_line (elapsed s) j],
          slept := slept s @ [p], elapsed := elapsed s + p\<rparr>"
        from go True Inr 1(2)
        have "wl retrieve vid p t ?s1 = Some y" by (simp add: Let_def)
        from 1(1) [OF this] have "outcome_ok retrieve vid p t ?s1 y" .
        then show ?thesis by (rule outcome_ok_weaken) simp
      qed
    qed
  qed
qed

subsection \<open>The claims about \<open>wait_for_completion\<close>\<close>

lemma three_checks_run:
  assumes r0: "retrieve vid 0 = Inr j0" and s0: "status j0 = ''queued''"
    and r1: "retrieve vid 1 = Inr j1" and s1: "status j1 = ''running''"
    and r2: "retrieve vid 2 = Inr j2" and s2: "status j2 = ''completed''"
    and p: "0 \<le> p" and t: "2 * p < t"
  shows "\<exists>s. wait_for_completion retrieve vid p t = Some (Inr j2, s)
           \<and> polls s = 3 \<and> slept s = [p, p] \<and> elapsed s = 2 * p"
proof -
  let ?a = "\<lparr>elapsed = 0, polls = 0, slept = [], printed = [wait_banner p t]\<rparr>"
  let ?b = "?a\<lparr>polls := Suc (polls ?a), printed := printed ?a @ [status_line (elapsed ?a) j0],
          slept := slept ?a @ [p], elapsed := elapsed ?a + p\<rparr>"
  let ?c = "?b\<lparr>polls := Suc (polls ?b), printed := printed ?b @ [status_line (elapsed ?b) j1],
          slept := slept ?b @ [p], elapsed := elapsed ?b + p\<rparr>"
  have "wait_loop retrieve vid p t ?a = wait_loop retrieve vid p t ?b"
    using r0 s0 p t by (intro wait_loop_continue [where j = j0]) simp_all
  also have "\<dots> = wait_loop retrieve vid p t ?c"
    using r1 s1 p t by (intro wait_loop_continue [where j = j1]) simp_all
  also have "\<dots> = Some (Inr j2, ?c\<lparr>polls := Suc (polls ?c),
        printed := printed ?c @ [status_line (elapsed ?c) j2, ''  Video generation complete!'']\<rparr>)"
    using r2 s2 t by (intro wait_loop_completed) (simp_all add: numeral_2_eq_2)
  finally show ?thesis
    by (simp add: wait_for_completion_def numeral_3_eq_3)
qed

text \<open>
  Claim C1.  When the first status check retrieves a record with status \<open>queued\<close>,
  the second one with status \<open>running\<close> and the third one with status
  \<open>completed\<close> (the interval is not negative and three checks fit before the
  timeout, \<open>2 * poll_interval < timeout\<close>), \<open>wait_for_completion\<close> returns the record
  of the third check, after exactly three checks and exactly two sleeps, each of length
  \<open>poll_interval\<close>.
\<close>

theorem wait_for_completion_third_check:
  assumes "retrieve vid 0 = Inr j0" and "status j0 = ''queued''"
    and "retrieve vid 1 = Inr j1" and "status j1 = ''running''"
    and "retrieve vid 2 = Inr j2" and "status j2 = ''completed''"
    and "0 \<le> poll_interval" and "2 * poll_interval < timeout"
  shows "\<exists>s. wait_for_completion retrieve vid poll_interval timeout = Some (Inr j2, s)
           \<and> polls s = 3 \<and> slept s = [poll_interval, poll_interval]"
  using three_checks_run [of retrieve vid j0 j1 j2 poll_interval timeout] assms by blast

theorem wait_for_completion_third_check_witness:
  "queued_running_completed ''video_1'' 0 = Inr (status_job ''video_1'' ''queued'')
   \<and> queued_running_completed ''video_1'' 1 = Inr (status_job ''video_1'' ''running'')
   \<and> queued_running_completed ''video_1'' 2 = Inr (status_job ''video_1'' ''completed'')
   \<and> (0::int) \<le> 10 \<and> 2 * 10 < (600::int)
   \<and> (\<exists>s. wait_for_completion queued_running_completed ''video_1'' 10 600
              = Some (Inr (status_job ''video_1'' ''completed''), s)
          \<and> polls s = 3 \<and> slept s = [10, 10])"
proof -
  have r0: "queued_running_completed ''video_1'' 0 = Inr (status_job ''video_1'' ''queued'')"
    and r1: "queued_running_completed ''video_1'' 1 = Inr (status_job ''video_1'' ''running'')"
    and r2: "queued_running_completed ''video_1'' 2 = Inr (status_job ''video_1'' ''completed'')"
    by (simp_all add: queued_running_completed_def)
  have st: "status (status_job ''video_1'' ''queued'') = ''queued''"
      "status (status_job ''video_1'' ''running'') = ''running''"
      "status (status_job ''video_1'' ''completed'') = ''completed''"
    by (simp_all add: status_job_def)
  have iv: "(0::int) \<le> 10" "2 * 10 < (600::int)" by simp_all
  from wait_for_completion_third_check
    [of queued_running_completed "''video_1''" "status_job ''video_1'' ''queued''"
       "status_job ''video_1'' ''running''" "status_job ''video_1'' ''completed''" 10 600]
  show ?thesis using r0 r1 r2 st iv by simp
qed

text \<open>
  Claim C2, as stated, fails: the timeout message names the \<open>timeout\<close> argument, not
  the elapsed time at which polling stopped.  With \<open>poll_interval = 10\<close> and
  \<open>timeout = 25\<close> a job that stays \<open>running\<close> is checked three times, polling stops
  at \<open>elapsed = 30\<close>, and the message reads "Timed out after 25s ...", in which
  \<open>30\<close> does not occur.
\<close>

theorem timeout_message_names_timeout_counterexample:
  "map_option fst (wait_for_completion (always_status ''running'') ''v1'' 10 25)
     = Some (Inl (RuntimeError ''Timed out after 25s waiting for video v1''))
   \<and> map_option (elapsed \<circ> snd) (wait_for_completion (always_status ''running'') ''v1'' 10 25)
     = Some 30
   \<and> map_option (slept \<circ> snd) (wait_for_completion (always_status ''running'') ''v1'' 10 25)
     = Some [10, 10, 10]
   \<and> \<not> sublist (str_int 30) ''Timed out after 25s waiting for video v1''"
  by code_simp

text \<open>
  Claim C2, amended.  For every positive \<open>poll_interval\<close> and every \<open>timeout\<close>, if
  each status check made before the timeout bound elapses (there are
  \<open>n = checks_until poll_interval timeout 0\<close> of them, the least \<open>n\<close> with
  \<open>n * poll_interval \<ge> timeout\<close>) retrieves a record that is neither \<open>completed\<close>
  nor \<open>failed\<close>, then \<open>wait_for_completion\<close> raises the timeout failure, whose message
  names the job id and the \<open>timeout\<close> argument.  Polling stops after \<open>n\<close> checks and
  \<open>n\<close> sleeps at \<open>elapsed = n * poll_interval\<close>, which is the value the message
  names exactly when \<open>timeout\<close> is a non-negative multiple of \<open>poll_interval\<close>.
\<close>

theorem wait_for_completion_times_out:
  assumes "0 < poll_interval"
    and "\<forall>k < checks_until poll_interval timeout 0. non_terminal retrieve vid k"
  shows "\<exists>s. wait_for_completion retrieve vid poll_interval timeout
               = Some (Inl (RuntimeError
                   (''Timed out after '' @ str_int timeout @ ''s waiting for video '' @ vid)), s)
           \<and> polls s = checks_until poll_interval timeout 0
           \<and> slept s = replicate (checks_until poll_interval timeout 0) poll_interval
           \<and> elapsed s = poll_interval * int (checks_until poll_interval timeout 0)
           \<and> (elapsed s = timeout \<longleftrightarrow> 0 \<le> timeout \<and> poll_interval dvd timeout)"
proof -
  let ?n = "checks_until poll_interval timeout 0"
  let ?a = "\<lparr>elapsed = 0, polls = 0, slept = [],
             printed = [wait_banner poll_interval timeout]\<rparr>"
  have "?n = checks_until poll_interval timeout (elapsed ?a)" by simp
  moreover have "\<forall>k<?n. non_terminal retrieve vid (polls ?a + k)" using assms(2) by simp
  ultimately obtain s where
    s: "wait_loop retrieve vid poll_interval timeout ?a
          = Some (Inl (RuntimeError (timeout_message timeout vid)), s)"
       "elapsed s = elapsed ?a + poll_interval * int ?n"
       "slept s = slept ?a @ replicate ?n poll_interval"
       "polls s = polls ?a + ?n"
    using wait_loop_runs_out [OF assms(1), of ?n timeout ?a retrieve vid] by blast
  have "elapsed s = timeout \<longleftrightarrow> 0 \<le> timeout \<and> poll_interval dvd timeout"
    using s(2) checks_until_multiple [OF assms(1), of timeout] by simp
  with s show ?thesis
    by (simp add: wait_for_completion_def timeout_message_def)
qed

theorem wait_for_completion_times_out_witness:
  "(0::int) < 10
   \<and> checks_until 10 25 0 = 3
   \<and> non_terminal (always_status ''running'') ''v1'' 0
   \<and> non_terminal (always_status ''running'') ''v1'' 1
   \<and> non_terminal (always_status ''running'') ''v1'' 2
   \<and> (\<exists>s. wait_for_completion (always_status ''running'') ''v1'' 10 25
              = Some (Inl (RuntimeError
                   (''Timed out after '' @ str_int 25 @ ''s waiting for video '' @ ''v1'')), s)
          \<and> polls s = 3 \<and> slept s = [10, 10, 10] \<and> elapsed s = 30 \<and> elapsed s \<noteq> 25)"
proof -
  have n: "checks_until 10 25 0 = 3" by code_simp
  have nt: "non_terminal (always_status ''running'') ''v1'' k" for k
    by (simp add: non_terminal_def always_status_def status_job_def)
  have "\<forall>k < checks_until 10 25 0. non_terminal (always_status ''running'') ''v1'' k"
    using nt by simp
  from wait_for_completion_times_out [OF _ this]
  show ?thesis using n nt by (simp add: numeral_3_eq_3)
qed

lemma wait_for_completion_outcome:
  "wait_for_completion retrieve vid p t = Some (res, s) \<Longrightarrow>
   outcome_ok retrieve vid p t
     \<lparr>elapsed = 0, polls = 0, slept = [], printed = [wait_banner p t]\<rparr> (res, s)"
  unfolding wait_for_completion_def by (rule wait_loop_outcome)

lemma returned_record_completed:
  assumes "wait_for_completion retrieve vid p t = Some (Inr j, s)"
  shows "status j = ''completed'' \<and> 0 < polls s \<and> retrieve vid (polls s - 1) = Inr j"
  using wait_for_completion_outcome [OF assms] by (simp add: outcome_ok_def)

lemma failure_error_from_failed:
  assumes run: "wait_for_completion retrieve vid p t
                  = Some (Inl (RuntimeError (''Video generation failed: '' @ m)), s)"
    and records: "\<forall>k. \<exists>r. retrieve vid k = Inr r"
  shows "\<exists>r. retrieve vid (polls s - 1) = Inr r \<and> status r = ''failed''"
proof -
  from records obtain r where r: "retrieve vid (polls s - 1) = Inr r" by blast
  have "''Video generation failed: '' @ m \<noteq> timeout_message t vid"
    by (simp add: timeout_message_def)
  with wait_for_completion_outcome [OF run] r show ?thesis
    by (auto simp: outcome_ok_def)
qed

lemma stuck_job_times_out:
  assumes "0 < p" and "\<forall>k < checks_until p t 0. non_terminal retrieve vid k"
  shows "\<exists>s. wait_for_completion retrieve vid p t
               = Some (Inl (RuntimeError (timeout_message t vid)), s)
           \<and> polls s = checks_until p t 0"
proof -
  let ?a = "\<lparr>elapsed = 0, polls = 0, slept = [], printed = [wait_banner p t]\<rparr>"
  have "checks_until p t 0 = checks_until p t (elapsed ?a)" by simp
  moreover have "\<forall>k<checks_until p t 0. non_terminal retrieve vid (polls ?a + k)"
    using assms(2) by simp
  ultimately show ?thesis
    using wait_loop_runs_out [OF assms(1), of "checks_until p t 0" t ?a retrieve vid]
    by (auto simp: wait_for_completion_def)
qed

text \<open>
  Claim C10.  (1) Whenever \<open>wait_for_completion\<close> returns a record, that record is the
  one retrieved by the last status check and its status is exactly \<open>completed\<close>.
  (2) Whenever it raises the job-failure error ("Video generation failed: ...") while
  the client itself raised nothing, the record retrieved by the last status check has
  status exactly \<open>failed\<close>.  (3) Every other status is non-terminal: with a positive
  interval, a job whose status is neither \<open>completed\<close> nor \<open>failed\<close> in every check
  made before the timeout bound elapses is polled \<open>checks_until poll_interval timeout 0\<close>
  times and then the timeout error is raised.
\<close>

theorem wait_for_completion_terminal_statuses:
  "(wait_for_completion retrieve vid poll_interval timeout = Some (Inr j, s) \<longrightarrow>
      status j = ''completed'' \<and> 0 < polls s \<and> retrieve vid (polls s - 1) = Inr j)
   \<and> (wait_for_completion retrieve vid poll_interval timeout
          = Some (Inl (RuntimeError (''Video generation failed: '' @ m)), s')
        \<and> (\<forall>k. \<exists>r. retrieve vid k = Inr r) \<longrightarrow>
      (\<exists>r. retrieve vid (polls s' - 1) = Inr r \<and> status r = ''failed''))
   \<and> (0 < poll_interval
        \<and> (\<forall>k < checks_until poll_interval timeout 0. non_terminal retrieve vid k) \<longrightarrow>
      (\<exists>s''. wait_for_completion retrieve vid poll_interval timeout
                = Some (Inl (RuntimeError (timeout_message timeout vid)), s'')
            \<and> polls s'' = checks_until poll_interval timeout 0))"
  using returned_record_completed [of retrieve vid poll_interval timeout j s]
    failure_error_from_failed [of retrieve vid poll_interval timeout m s']
    stuck_job_times_out [of poll_interval timeout retrieve vid]
  by blast

theorem wait_for_completion_terminal_statuses_witness:
  "(\<exists>s. wait_for_completion queued_running_completed ''v1'' 10 600
            = Some (Inr (status_job ''v1'' ''completed''), s)
        \<and> status (status_job ''v1'' ''completed'') = ''completed'' \<and> 0 < polls s
        \<and> queued_running_completed ''v1'' (polls s - 1) = Inr (status_job ''v1'' ''completed''))
   \<and> (\<exists>s. wait_for_completion (always_status ''failed'') ''v1'' 10 600
            = Some (Inl (RuntimeError (''Video generation failed: '' @ ''None'')), s)
        \<and> (\<exists>r. always_status ''failed'' ''v1'' (polls s - 1) = Inr r \<and> status r = ''failed''))
   \<and> (0::int) < 10 \<and> checks_until 10 25 0 = 3
   \<and> non_terminal (always_status ''canceled'') ''v1'' 0
   \<and> non_terminal (always_status ''canceled'') ''v1'' 1
   \<and> non_terminal (always_status ''canceled'') ''v1'' 2
   \<and> (\<exists>s. wait_for_completion (always_status ''canceled'') ''v1'' 10 25
            = Some (Inl (RuntimeError (timeout_message 25 ''v1'')), s)
        \<and> polls s = 3)"
proof -
  have "map_option fst (wait_for_completion queued_running_completed ''v1'' 10 600)
          = Some (Inr (status_job ''v1'' ''completed''))"
    by code_simp
  then obtain s1 where s1: "wait_for_completion queued_running_completed ''v1'' 10 600
          = Some (Inr (status_job ''v1'' ''completed''), s1)"
    by auto
  have "map_option fst (wait_for_completion (always_status ''failed'') ''v1'' 10 600)
          = Some (Inl (RuntimeError (''Video generation failed: '' @ ''None'')))"
    by code_simp
  then obtain s2 where s2: "wait_for_completion (always_status ''failed'') ''v1'' 10 600
          = Some (Inl (RuntimeError (''Video generation failed: '' @ ''None'')), s2)"
    by auto
  have recs: "\<forall>k. \<exists>r. always_status ''failed'' ''v1'' k = Inr r"
    by (simp add: always_status_def)
  have n: "checks_until 10 25 0 = 3" by code_simp
  have nt: "non_terminal (always_status ''canceled'') ''v1'' k" for k
    by (simp add: non_terminal_def always_status_def status_job_def)
  have nts: "\<forall>k < checks_until 10 25 0. non_terminal (always_status ''canceled'') ''v1'' k"
    using nt by simp
  have a: "status (status_job ''v1'' ''completed'') = ''completed'' \<and> 0 < polls s1
        \<and> queued_running_completed ''v1'' (polls s1 - 1) = Inr (status_job ''v1'' ''completed'')"
    using wait_for_completion_terminal_statuses
      [of queued_running_completed "''v1''" 10 600 "status_job ''v1'' ''completed''" s1] s1
    by blast
  have b: "\<exists>r. always_status ''failed'' ''v1'' (polls s2 - 1) = Inr r \<and> status r = ''failed''"
    using wait_for_completion_terminal_statuses
      [of "always_status ''failed''" "''v1''" 10 600 _ _ "''None''" s2] s2 recs
    by blast
  have c: "\<exists>s. wait_for_completion (always_status ''canceled'') ''v1'' 10 25
            = Some (Inl (RuntimeError (timeout_message 25 ''v1'')), s) \<and> polls s = 3"
    using wait_for_completion_terminal_statuses
      [of "always_status ''canceled''" "''v1''" 10 25] nts n
    by simp
  show ?thesis using s1 a s2 b c n nt by auto
qed

section \<open>Properties of the downloader\<close>

subsection \<open>One attempt\<close>

lemma download_variant_requested:
  "requested (download_variant e vid (v, p) w) = requested w @ [v]"
  by (simp add: download_variant_def Let_def split: sum.splits option.splits)

lemma download_variant_stdout:
  "set (stdout w) \<subseteq> set (stdout (download_variant e vid (v, p) w))"
  by (auto simp: download_variant_def Let_def split: sum.splits option.splits)

lemma download_variant_other_file:
  "q \<noteq> p \<Longrightarrow> files (download_variant e vid (v, p) w) q = files w q"
  by (simp add: download_variant_def Let_def split: sum.splits option.splits)

lemma download_variant_settled:
  "attempt_settled e vid w (download_variant e vid (v, p) w)
     (\<lambda>x. ''    Skipped '' @ v @ '': '' @ str_exn x) v p"
  by (simp add: attempt_settled_def download_variant_def Let_def split: sum.splits option.splits)

lemma attempt_settled_later:
  assumes "attempt_settled e vid w w1 report v p"
    and "set (stdout w1) \<subseteq> set (stdout w2)" and "files w2 p = files w1 p"
  shows "attempt_settled e vid w w2 report v p"
  using assms by (auto simp: attempt_settled_def split: sum.splits option.splits)

lemma attempt_settled_earlier:
  assumes "attempt_settled e vid w1 w2 report v p" and "files w1 p = files w p"
  shows "attempt_settled e vid w w2 report v p"
  using assms by (auto simp: attempt_settled_def split: sum.splits option.splits)

subsection \<open>The loop of \<open>download_outputs\<close>\<close>

lemma download_outputs_run:
  assumes mk: "makedirs e OUTPUT_DIR = None"
  shows "\<exists>w'. download_outputs e vid pn w = (Inr (variants_of vid pn), w')
           \<and> requested w' = requested w @ [''spritesheet'', ''thumbnail'', ''video'']
           \<and> (\<forall>(v, p) \<in> set (variants_of vid pn).
                 attempt_settled e vid w w' (\<lambda>x. ''    Skipped '' @ v @ '': '' @ str_exn x) v p)"
proof -
  define base where "base = OUTPUT_DIR @ ''/'' @ pn @ ''_'' @ vid"
  define p1 where "p1 = base @ ''_spritesheet.png''"
  define p2 where "p2 = base @ ''_thumbnail.png''"
  define p3 where "p3 = base @ ''.mp4''"
  have vs: "variants_of vid pn = [(''spritesheet'', p1), (''thumbnail'', p2), (''video'', p3)]"
    by (simp add: variants_of_def Let_def base_def p1_def p2_def p3_def)
  have ne: "p1 \<noteq> p2" "p1 \<noteq> p3" "p2 \<noteq> p3"
    by (simp_all add: p1_def p2_def p3_def)
  define w1 where "w1 = download_variant e vid (''spritesheet'', p1) w"
  define w2 where "w2 = download_variant e vid (''thumbnail'', p2) w1"
  define w3 where "w3 = download_variant e vid (''video'', p3) w2"
  have run: "download_outputs e vid pn w = (Inr (variants_of vid pn), w3)"
    using mk by (simp add: download_outputs_def vs w1_def w2_def w3_def)
  have req: "requested w3 = requested w @ [''spritesheet'', ''thumbnail'', ''video'']"
    by (simp add: w1_def w2_def w3_def download_variant_requested)
  have s12: "set (stdout w1) \<subseteq> set (stdout w2)" and s23: "set (stdout w2) \<subseteq> set (stdout w3)"
    by (simp_all add: w2_def w3_def download_variant_stdout)
  have a1: "attempt_settled e vid w w3 (\<lambda>x. ''    Skipped '' @ ''spritesheet'' @ '': '' @ str_exn x)
              ''spritesheet'' p1"
  proof -
    have A: "attempt_settled e vid w w1 (\<lambda>x. ''    Skipped '' @ ''spritesheet'' @ '': '' @ str_exn x)
              ''spritesheet'' p1"
      unfolding w1_def by (rule download_variant_settled)
    have B: "set (stdout w1) \<subseteq> set (stdout w3)" using s12 s23 by blast
    have C: "files w3 p1 = files w1 p1"
      using ne by (simp add: w3_def w2_def download_variant_other_file)
    show ?thesis by (rule attempt_settled_later [OF A B C])
  qed
  have a2: "attempt_settled e vid w w3 (\<lambda>x. ''    Skipped '' @ ''thumbnail'' @ '': '' @ str_exn x)
              ''thumbnail'' p2"
  proof -
    have A: "attempt_settled e vid w1 w2 (\<lambda>x. ''    Skipped '' @ ''thumbnail'' @ '': '' @ str_exn x)
              ''thumbnail'' p2"
      unfolding w2_def by (rule download_variant_settled)
    have C: "files w3 p2 = files w2 p2"
      using ne by (simp add: w3_def download_variant_other_file)
    have D: "files w1 p2 = files w p2"
      using ne by (simp add: w1_def download_variant_other_file)
    show ?thesis
      by (rule attempt_settled_earlier [OF attempt_settled_later [OF A s23 C] D])
  qed
  have a3: "attempt_settled e vid w w3 (\<lambda>x. ''    Skipped '' @ ''video'' @ '': '' @ str_exn x)
              ''video'' p3"
  proof -
    have A: "attempt_settled e vid w2 w3 (\<lambda>x. ''    Skipped '' @ ''video'' @ '': '' @ str_exn x)
              ''video'' p3"
      unfolding w3_def by (rule download_variant_settled)
    have D: "files w2 p3 = files w p3"
      using ne by (simp add: w1_def w2_def download_variant_other_file)
    show ?thesis by (rule attempt_settled_earlier [OF A D])
  qed
  show ?thesis using run req a1 a2 a3 by (simp add: vs)
qed

subsection \<open>The loop of download_video.py\<close>

lemma script_variant_requested:
  "requested (script_variant e vid v w) = requested w @ [v]"
  by (simp add: script_variant_def Let_def split: sum.splits option.splits)

lemma script_variant_stdout:
  "set (stdout w) \<subseteq> set (stdout (script_variant e vid v w))"
  by (auto simp: script_variant_def Let_def split: sum.splits option.splits)

lemma script_variant_other_file:
  "q \<noteq> script_path vid v \<Longrightarrow> files (script_variant e vid v w) q = files w q"
  by (simp add: script_variant_def Let_def split: sum.splits option.splits)

lemma script_variant_settled:
  "script_attempt_settled e vid w (script_variant e vid v w) v"
  by (simp add: script_attempt_settled_def script_variant_def Let_def
      split: sum.splits option.splits)

lemma script_attempt_settled_later:
  assumes "script_attempt_settled e vid w w1 v"
    and "set (stdout w1) \<subseteq> set (stdout w2)"
    and "files w2 (script_path vid v) = files w1 (script_path vid v)"
  shows "script_attempt_settled e vid w w2 v"
  using assms by (auto simp: script_attempt_settled_def split: sum.splits option.splits)

lemma script_attempt_settled_earlier:
  assumes "script_attempt_settled e vid w1 w2 v"
    and "files w1 (script_path vid v) = files w (script_path vid v)"
  shows "script_attempt_settled e vid w w2 v"
  using assms by (auto simp: script_attempt_settled_def split: sum.splits option.splits)

lemma download_video_script_run:
  assumes mk: "makedirs e ''output'' = None" and argv: "2 \<le> length argv"
  shows "\<exists>w'. download_video_script e argv w = (Inr 0, w')
           \<and> requested w' = requested w @ [''video'', ''thumbnail'', ''spritesheet'']
           \<and> (\<forall>v \<in> set [''video'', ''thumbnail'', ''spritesheet''].
                 script_attempt_settled e (argv ! 1) w w' v)"
proof -
  define vid where "vid = argv ! 1"
  define p1 where "p1 = script_path vid ''video''"
  define p2 where "p2 = script_path vid ''thumbnail''"
  define p3 where "p3 = script_path vid ''spritesheet''"
  have ne: "p1 \<noteq> p2" "p1 \<noteq> p3" "p2 \<noteq> p3"
    by (simp_all add: p1_def p2_def p3_def script_path_def)
  define w1 where "w1 = script_variant e vid ''video'' w"
  define w2 where "w2 = script_variant e vid ''thumbnail'' w1"
  define w3 where "w3 = script_variant e vid ''spritesheet'' w2"
  have run: "download_video_script e argv w = (Inr 0, w3)"
    using mk argv by (simp add: download_video_script_def vid_def w1_def w2_def w3_def)
  have req: "requested w3 = requested w @ [''video'', ''thumbnail'', ''spritesheet'']"
    by (simp add: w1_def w2_def w3_def script_variant_requested)
  have s12: "set (stdout w1) \<subseteq> set (stdout w2)" and s23: "set (stdout w2) \<subseteq> set (stdout w3)"
    by (simp_all add: w2_def w3_def script_variant_stdout)
  have a1: "script_attempt_settled e vid w w3 ''video''"
  proof -
    have A: "script_attempt_settled e vid w w1 ''video''"
      unfolding w1_def by (rule script_variant_settled)
    have B: "set (stdout w1) \<subseteq> set (stdout w3)" using s12 s23 by blast
    have C: "files w3 (script_path vid ''video'') = files w1 (script_path vid ''video'')"
      using ne by (simp add: w3_def w2_def p1_def p2_def p3_def script_variant_other_file)
    show ?thesis by (rule script_attempt_settled_later [OF A B C])
  qed
  have a2: "script_attempt_settled e vid w w3 ''thumbnail''"
  proof -
    have A: "script_attempt_settled e vid w1 w2 ''thumbnail''"
      unfolding w2_def by (rule script_variant_settled)
    have C: "files w3 (script_path vid ''thumbnail'') = files w2 (script_path vid ''thumbnail'')"
      using ne by (simp add: w3_def p2_def p3_def script_variant_other_file)
    have D: "files w1 (script_path vid ''thumbnail'') = files w (script_path vid ''thumbnail'')"
      using ne by (simp add: w1_def p1_def p2_def script_variant_other_file)
    show ?thesis
      by (rule script_attempt_settled_earlier [OF script_attempt_settled_later [OF A s23 C] D])
  qed
  have a3: "script_attempt_settled e vid w w3 ''spritesheet''"
  proof -
    have A: "script_attempt_settled e vid w2 w3 ''spritesheet''"
      unfolding w3_def by (rule script_variant_settled)
    have D: "files w2 (script_path vid ''spritesheet'') = files w (script_path vid ''spritesheet'')"
      using ne by (simp add: w1_def w2_def p1_def p2_def p3_def script_variant_other_file)
    show ?thesis by (rule script_attempt_settled_earlier [OF A D])
  qed
  show ?thesis using run req a1 a2 a3 by (simp add: vid_def)
qed

subsection \<open>The claims about the downloader\<close>

text \<open>
  Claim C4.  When the output directory can be created, both download loops (the one of
  \<open>download_outputs\<close> and the one of download_video.py, called with a video id) end
  normally after requesting all three variants, whatever the outcome of each request.
  Each variant is settled on its own.  In \<open>download_outputs\<close>: if its download and the
  opening of its file succeed, its file holds the bytes the service sent; otherwise its
  failure is printed and its file is left as it was.  In download_video.py, which
  opens the file before it reads the response: a failed request or open is printed and
  leaves the file as it was, a failed read is printed and leaves the file empty, and
  otherwise the file holds the bytes the service sent.  So a failure of \<open>video\<close> alone
  leaves the \<open>thumbnail\<close> and \<open>spritesheet\<close> files written.
\<close>

theorem variant_failure_does_not_abort_others:
  assumes "makedirs e ''output'' = None" and "2 \<le> length argv"
  shows "(\<exists>w'. download_outputs e video_id prompt_name w
                  = (Inr (variants_of video_id prompt_name), w')
            \<and> requested w' = requested w @ [''spritesheet'', ''thumbnail'', ''video'']
            \<and> (\<forall>(v, p) \<in> set (variants_of video_id prompt_name).
                  attempt_settled e video_id w w'
                    (\<lambda>x. ''    Skipped '' @ v @ '': '' @ str_exn x) v p))
       \<and> (\<exists>w'. download_video_script e argv w = (Inr 0, w')
            \<and> requested w' = requested w @ [''video'', ''thumbnail'', ''spritesheet'']
            \<and> (\<forall>v \<in> set [''video'', ''thumbnail'', ''spritesheet''].
                  script_attempt_settled e (argv ! 1) w w' v))"
proof -
  have "makedirs e OUTPUT_DIR = None" using assms(1) by (simp add: OUTPUT_DIR_def)
  from download_outputs_run [OF this, of video_id prompt_name w]
    download_video_script_run [OF assms, of w]
  show ?thesis by blast
qed

theorem variant_failure_does_not_abort_others_witness:
  "makedirs video_absent ''output'' = None
   \<and> 2 \<le> length [''download_video.py'', ''v1'']
   \<and> download_content video_absent ''v1'' ''video'' = Inl (APIError ''404 not found'')
   \<and> (\<exists>w'. download_outputs video_absent ''v1'' ''idle'' empty_world
               = (Inr (variants_of ''v1'' ''idle''), w')
         \<and> requested w' = [''spritesheet'', ''thumbnail'', ''video'']
         \<and> files w' ''output/idle_v1_spritesheet.png'' = Some ''data of spritesheet''
         \<and> files w' ''output/idle_v1_thumbnail.png'' = Some ''data of thumbnail''
         \<and> files w' ''output/idle_v1.mp4'' = None
         \<and> ''    Skipped video: 404 not found'' \<in> set (stdout w'))
   \<and> (\<exists>w'. download_video_script video_absent [''download_video.py'', ''v1''] empty_world
               = (Inr 0, w')
         \<and> requested w' = [''video'', ''thumbnail'', ''spritesheet'']
         \<and> files w' ''output/v1_spritesheet.png'' = Some ''data of spritesheet''
         \<and> files w' ''output/v1_thumbnail.png'' = Some ''data of thumbnail''
         \<and> files w' ''output/v1_video.mp4'' = None
         \<and> ''  Failed: 404 not found'' \<in> set (stdout w'))"
proof -
  have mk: "makedirs video_absent ''output'' = None" by (simp add: video_absent_def)
  have len: "2 \<le> length [''download_video.py'', ''v1'']" by simp
  have vs: "variants_of ''v1'' ''idle'' =
      [(''spritesheet'', ''output/idle_v1_spritesheet.png''),
       (''thumbnail'', ''output/idle_v1_thumbnail.png''), (''video'', ''output/idle_v1.mp4'')]"
    by (simp add: variants_of_def OUTPUT_DIR_def)
  have sp: "script_path ''v1'' ''video'' = ''output/v1_video.mp4''"
    "script_path ''v1'' ''thumbnail'' = ''output/v1_thumbnail.png''"
    "script_path ''v1'' ''spritesheet'' = ''output/v1_spritesheet.png''"
    by (simp_all add: script_path_def)
  have dc: "download_content video_absent ''v1'' ''video'' = Inl (APIError ''404 not found'')"
    "download_content video_absent ''v1'' ''thumbnail'' = Inr ''data of thumbnail''"
    "download_content video_absent ''v1'' ''spritesheet'' = Inr ''data of spritesheet''"
    "open_wb video_absent = (\<lambda>p. None)"
    by (simp_all add: video_absent_def download_content_def)
  have rc: "request_content video_absent ''v1'' ''video'' = Some (APIError ''404 not found'')"
    "request_content video_absent ''v1'' ''thumbnail'' = None"
    "request_content video_absent ''v1'' ''spritesheet'' = None"
    "read_content video_absent ''v1'' ''thumbnail'' = Inr ''data of thumbnail''"
    "read_content video_absent ''v1'' ''spritesheet'' = Inr ''data of spritesheet''"
    by (simp_all add: video_absent_def)
  from variant_failure_does_not_abort_others [OF mk len, of "''v1''" "''idle''" empty_world]
  obtain w1 w2 where
    a: "download_outputs video_absent ''v1'' ''idle'' empty_world
          = (Inr (variants_of ''v1'' ''idle''), w1)"
       "requested w1 = requested empty_world @ [''spritesheet'', ''thumbnail'', ''video'']"
       "\<forall>(v, p) \<in> set (variants_of ''v1'' ''idle'').
           attempt_settled video_absent ''v1'' empty_world w1
             (\<lambda>x. ''    Skipped '' @ v @ '': '' @ str_exn x) v p"
    and b: "download_video_script video_absent [''download_video.py'', ''v1''] empty_world
          = (Inr 0, w2)"
       "requested w2 = requested empty_world @ [''video'', ''thumbnail'', ''spritesheet'']"
       "\<forall>v \<in> set [''video'', ''thumbnail'', ''spritesheet''].
           script_attempt_settled video_absent ([''download_video.py'', ''v1''] ! 1)
             empty_world w2 v"
    by blast
  have a': "files w1 ''output/idle_v1_spritesheet.png'' = Some ''data of spritesheet''"
    "files w1 ''output/idle_v1_thumbnail.png'' = Some ''data of thumbnail''"
    "files w1 ''output/idle_v1.mp4'' = None"
    "''    Skipped video: 404 not found'' \<in> set (stdout w1)"
    using a(3) by (simp_all add: vs attempt_settled_def dc empty_world_def)
  have b': "files w2 ''output/v1_spritesheet.png'' = Some ''data of spritesheet''"
    "files w2 ''output/v1_thumbnail.png'' = Some ''data of thumbnail''"
    "files w2 ''output/v1_video.mp4'' = None"
    "''  Failed: 404 not found'' \<in> set (stdout w2)"
    using b(3) by (simp_all add: sp script_attempt_settled_def dc rc empty_world_def)
  show ?thesis
    using mk len dc(1) a(1,2) a' b(1,2) b' by (simp add: empty_world_def)
qed

text \<open>
  The read failure in download_video.py at work: the \<open>thumbnail\<close> file is left empty,
  the other two files are written.
\<close>

lemma script_read_failure_leaves_empty_file:
  "files (snd (download_video_script thumbnail_read_fails [''download_video.py'', ''v1'']
                 empty_world)) ''output/v1_thumbnail.png'' = Some []
   \<and> files (snd (download_video_script thumbnail_read_fails [''download_video.py'', ''v1'']
                 empty_world)) ''output/v1_video.mp4'' = Some ''data of video''
   \<and> files (snd (download_video_script thumbnail_read_fails [''download_video.py'', ''v1'']
                 empty_world)) ''output/v1_spritesheet.png'' = Some ''data of spritesheet''"
  by (simp add: download_video_script_def script_variant_def script_path_def
      thumbnail_read_fails_def empty_world_def Let_def)

text \<open>
  Claim C9, as stated, fails: \<open>download_outputs\<close> returns neither the entries that were
  written nor a mapping with the failures flagged.  When the \<open>video\<close> download fails,
  the returned mapping still holds the \<open>video\<close> entry although no such file was
  written (so it is not the entries written), and it is the very value returned when
  all three downloads succeed (so nothing in it flags the failure).
\<close>

theorem returned_mapping_counterexample:
  "fst (download_outputs video_absent ''v1'' ''idle'' empty_world)
     = Inr [(''spritesheet'', ''output/idle_v1_spritesheet.png''),
            (''thumbnail'', ''output/idle_v1_thumbnail.png''),
            (''video'', ''output/idle_v1.mp4'')]
   \<and> files (snd (download_outputs video_absent ''v1'' ''idle'' empty_world))
        ''output/idle_v1.mp4'' = None
   \<and> written_entries video_absent ''v1''
        (snd (download_outputs video_absent ''v1'' ''idle'' empty_world))
        (variants_of ''v1'' ''idle'')
     = [(''spritesheet'', ''output/idle_v1_spritesheet.png''),
        (''thumbnail'', ''output/idle_v1_thumbnail.png'')]
   \<and> fst (download_outputs video_absent ''v1'' ''idle'' empty_world)
     = fst (download_outputs all_present ''v1'' ''idle'' empty_world)"
  by (simp add: download_outputs_def variants_of_def OUTPUT_DIR_def video_absent_def
      all_present_def empty_world_def download_variant_def written_entries_def Let_def
      download_content_def)

text \<open>
  Claim C9, amended.  When the output directory can be created, \<open>download_outputs\<close>
  returns the full intended mapping of all three variants (spritesheet, thumbnail,
  video, each with its intended path), whatever the outcome of the downloads and with
  no entry flagged.  Which entries were written shows only in the world: an entry's file
  holds the downloaded bytes when its download and the opening of its file succeeded;
  otherwise the file is as before and a "Skipped" line was printed.
\<close>

theorem download_outputs_returns_intended_mapping:
  assumes "makedirs e OUTPUT_DIR = None"
  shows "\<exists>w'. download_outputs e video_id prompt_name w
                 = (Inr [(''spritesheet'', ''output/'' @ prompt_name @ ''_'' @ video_id
                                            @ ''_spritesheet.png''),
                         (''thumbnail'', ''output/'' @ prompt_name @ ''_'' @ video_id
                                            @ ''_thumbnail.png''),
                         (''video'', ''output/'' @ prompt_name @ ''_'' @ video_id @ ''.mp4'')],
                    w')
           \<and> (\<forall>(v, p) \<in> set (variants_of video_id prompt_name).
                 attempt_settled e video_id w w'
                   (\<lambda>x. ''    Skipped '' @ v @ '': '' @ str_exn x) v p)"
proof -
  have "variants_of video_id prompt_name =
      [(''spritesheet'', ''output/'' @ prompt_name @ ''_'' @ video_id @ ''_spritesheet.png''),
       (''thumbnail'', ''output/'' @ prompt_name @ ''_'' @ video_id @ ''_thumbnail.png''),
       (''video'', ''output/'' @ prompt_name @ ''_'' @ video_id @ ''.mp4'')]"
    by (simp add: variants_of_def OUTPUT_DIR_def)
  with download_outputs_run [OF assms, of video_id prompt_name w] show ?thesis
    by (metis (no_types, lifting))
qed

theorem download_outputs_returns_intended_mapping_witness:
  "makedirs video_absent OUTPUT_DIR = None
   \<and> (\<exists>w'. download_outputs video_absent ''v1'' ''idle'' empty_world
               = (Inr [(''spritesheet'', ''output/idle_v1_spritesheet.png''),
                       (''thumbnail'', ''output/idle_v1_thumbnail.png''),
                       (''video'', ''output/idle_v1.mp4'')], w')
         \<and> files w' ''output/idle_v1.mp4'' = None
         \<and> ''    Skipped video: 404 not found'' \<in> set (stdout w'))"
proof -
  have mk: "makedirs video_absent OUTPUT_DIR = None" by (simp add: video_absent_def)
  have vs: "variants_of ''v1'' ''idle'' =
      [(''spritesheet'', ''output/idle_v1_spritesheet.png''),
       (''thumbnail'', ''output/idle_v1_thumbnail.png''), (''video'', ''output/idle_v1.mp4'')]"
    by (simp add: variants_of_def OUTPUT_DIR_def)
  have dc: "download_content video_absent ''v1'' ''video'' = Inl (APIError ''404 not found'')"
    by (simp add: video_absent_def download_content_def)
  from download_outputs_returns_intended_mapping [OF mk, of "''v1''" "''idle''" empty_world]
  obtain w' where
    a: "download_outputs video_absent ''v1'' ''idle'' empty_world
          = (Inr [(''spritesheet'', ''output/'' @ ''idle'' @ ''_'' @ ''v1'' @ ''_spritesheet.png''),
                  (''thumbnail'', ''output/'' @ ''idle'' @ ''_'' @ ''v1'' @ ''_thumbnail.png''),
                  (''video'', ''output/'' @ ''idle'' @ ''_'' @ ''v1'' @ ''.mp4'')], w')"
       "\<forall>(v, p) \<in> set (variants_of ''v1'' ''idle'').
           attempt_settled video_absent ''v1'' empty_world w'
             (\<lambda>x. ''    Skipped '' @ v @ '': '' @ str_exn x) v p"
    by blast
  have "files w' ''output/idle_v1.mp4'' = None"
    "''    Skipped video: 404 not found'' \<in> set (stdout w')"
    using a(2) by (simp_all add: vs attempt_settled_def dc empty_world_def)
  then show ?thesis using mk a(1) by simp
qed

section \<open>Properties of the submission image\<close>

lemma resize_size: "resize im sz r = Inr out \<Longrightarrow> im_size out = sz"
  by (auto simp: resize_def split: if_splits)

lemma resize_mode: "resize im sz r = Inr out \<Longrightarrow> mode out = mode im"
  by (auto simp: resize_def split: if_splits)

lemma resize_positive: "0 < fst sz \<Longrightarrow> 0 < snd sz \<Longrightarrow> \<exists>out. resize im sz r = Inr out"
  by (auto simp: resize_def)

lemma paste_size: "paste dst src box m = Inr out \<Longrightarrow> im_size out = im_size dst"
  by (auto simp: paste_def split: option.splits if_splits)

lemma paste_mode: "paste dst src box m = Inr out \<Longrightarrow> mode out = mode dst"
  by (auto simp: paste_def split: option.splits if_splits)

lemma Image_new_size: "Image_new m sz c = Inr out \<Longrightarrow> im_size out = sz \<and> mode out = m"
  by (auto simp: Image_new_def split: if_splits)

lemma flatten_on_white:
  assumes "0 \<le> fst (im_size r)" and "0 \<le> snd (im_size r)"
  shows "(case Image_new ''RGB'' (im_size r) [255, 255, 255] of
            Inl x \<Rightarrow> Inl x
          | Inr bg \<Rightarrow> paste bg r (0, 0) (Some (alpha_band r)))
         = Inr \<lparr>mode = ''RGB'', im_size = im_size r,
                pixels = Pasted (Fill [255, 255, 255]) (pixels r) (0, 0)
                           (Some (Band (pixels r) 3))\<rparr>"
  using assms by (simp add: Image_new_def paste_def alpha_band_def)

lemma resized_output_size:
  assumes "resize_image_to_match e path ts = Inr out"
  shows "\<exists>w h. parse_size ts = Inr (w, h) \<and> im_size out = (w, h)"
proof -
  obtain w h where p: "parse_size ts = Inr (w, h)"
    using assms by (cases "parse_size ts") (auto simp: resize_image_to_match_def)
  obtain img where o: "open_image e path = Inr img"
    using assms p by (cases "open_image e path") (auto simp: resize_image_to_match_def)
  obtain r where r: "resize img (w, h) NEAREST = Inr r"
    using assms p o
    by (cases "resize img (w, h) NEAREST") (auto simp: resize_image_to_match_def)
  define fl where "fl = (if mode r = ''RGBA'' then
              (case Image_new ''RGB'' (im_size r) [255, 255, 255] of
                 Inl x \<Rightarrow> Inl x
               | Inr bg \<Rightarrow> paste bg r (0, 0) (Some (alpha_band r)))
            else Inr r)"
  have "(case fl of Inl x \<Rightarrow> Inl x
         | Inr final \<Rightarrow> (case png_refuses e final of Some x \<Rightarrow> Inl x | None \<Rightarrow> Inr final))
        = Inr out"
    using assms p o r by (simp add: resize_image_to_match_def fl_def)
  then have "fl = Inr out"
    by (cases fl) (auto split: option.splits)
  then have f: "(if mode r = ''RGBA'' then
              (case Image_new ''RGB'' (im_size r) [255, 255, 255] of
                 Inl x \<Rightarrow> Inl x
               | Inr bg \<Rightarrow> paste bg r (0, 0) (Some (alpha_band r)))
            else Inr r) = Inr out"
    by (simp add: fl_def)
  have rs: "im_size r = (w, h)" using r by (rule resize_size)
  have "im_size out = im_size r"
  proof (cases "mode r = ''RGBA''")
    case False
    with f show ?thesis by simp
  next
    case True
    with f obtain bg where bg: "Image_new ''RGB'' (im_size r) [255, 255, 255] = Inr bg"
      and pa: "paste bg r (0, 0) (Some (alpha_band r)) = Inr out"
      by (auto split: sum.splits)
    from paste_size [OF pa] Image_new_size [OF bg] show ?thesis by simp
  qed
  with p rs show ?thesis by simp
qed

lemma resized_output_exists:
  assumes p: "parse_size ts = Inr (w, h)" and w: "0 < w" and h: "0 < h"
    and o: "open_image e path = Inr img" and ok: "\<forall>im. png_refuses e im = None"
  shows "\<exists>out. resize_image_to_match e path ts = Inr out"
proof -
  from resize_positive [of "(w, h)" img NEAREST] w h
  obtain r where r: "resize img (w, h) NEAREST = Inr r" by auto
  have rs: "im_size r = (w, h)" using r by (rule resize_size)
  show ?thesis
  proof (cases "mode r = ''RGBA''")
    case False
    with p o r ok show ?thesis by (simp add: resize_image_to_match_def)
  next
    case True
    have "0 \<le> fst (im_size r)" "0 \<le> snd (im_size r)" using rs w h by simp_all
    from flatten_on_white [OF this] True p o r ok show ?thesis
      by (simp add: resize_image_to_match_def)
  qed
qed

text \<open>
  Claim C5.  Whenever \<open>resize_image_to_match\<close> returns, the image it encoded has exactly
  the size \<open>(width, height)\<close> read from \<open>target_size\<close>, whatever the size and aspect
  ratio of the source.  And it does return for every source image that opens and every
  target size with positive sides (the PNG writer accepting the image).
\<close>

theorem resize_image_to_match_exact_size:
  "(resize_image_to_match e path target_size = Inr out \<longrightarrow>
      (\<exists>w h. parse_size target_size = Inr (w, h) \<and> im_size out = (w, h)))
   \<and> (parse_size target_size = Inr (width, height) \<and> 0 < width \<and> 0 < height
        \<and> open_image e path = Inr img \<and> (\<forall>im. png_refuses e im = None) \<longrightarrow>
      (\<exists>out'. resize_image_to_match e path target_size = Inr out'
             \<and> im_size out' = (width, height)))"
proof (intro conjI impI)
  assume "resize_image_to_match e path target_size = Inr out"
  then show "\<exists>w h. parse_size target_size = Inr (w, h) \<and> im_size out = (w, h)"
    by (rule resized_output_size)
next
  assume a: "parse_size target_size = Inr (width, height) \<and> 0 < width \<and> 0 < height
        \<and> open_image e path = Inr img \<and> (\<forall>im. png_refuses e im = None)"
  then obtain out' where r: "resize_image_to_match e path target_size = Inr out'"
    using resized_output_exists [of target_size width height e path img] by blast
  from resized_output_size [OF r] a have "im_size out' = (width, height)" by auto
  with r show "\<exists>out'. resize_image_to_match e path target_size = Inr out'
             \<and> im_size out' = (width, height)" by blast
qed

theorem resize_image_to_match_exact_size_witness:
  "parse_size ''1280x720'' = Inr (1280, 720) \<and> (0::int) < 1280 \<and> (0::int) < 720
   \<and> open_image (one_file ''RGB'' (32, 48)) ''original.png''
       = Inr (source_image ''RGB'' (32, 48) ''original.png'')
   \<and> (\<forall>im. png_refuses (one_file ''RGB'' (32, 48)) im = None)
   \<and> (\<exists>out'. resize_image_to_match (one_file ''RGB'' (32, 48)) ''original.png'' ''1280x720''
                = Inr out'
          \<and> im_size out' = (1280, 720))"
proof -
  have p: "parse_size ''1280x720'' = Inr (1280, 720)" by code_simp
  have o: "open_image (one_file ''RGB'' (32, 48)) ''original.png''
       = Inr (source_image ''RGB'' (32, 48) ''original.png'')"
    and ok: "\<forall>im. png_refuses (one_file ''RGB'' (32, 48)) im = None"
    by (simp_all add: one_file_def)
  from resize_image_to_match_exact_size
    [of "one_file ''RGB'' (32, 48)" "''original.png''" "''1280x720''" _ 1280 720
       "source_image ''RGB'' (32, 48) ''original.png''"]
  show ?thesis using p o ok by simp
qed

text \<open>
  Claim C7, as stated, fails: only a resized image of mode \<open>RGBA\<close> is composited onto
  white.  A source of mode \<open>LA\<close> (grey with alpha) has an alpha channel, is not
  composited, and the encoded image still has mode \<open>LA\<close>, alpha channel included.
\<close>

theorem alpha_kept_for_mode_LA_counterexample:
  "has_alpha_channel (mode (source_image ''LA'' (32, 32) ''original.png''))
   \<and> resize_image_to_match (one_file ''LA'' (32, 32)) ''original.png'' ''1280x720''
       = Inr \<lparr>mode = ''LA'', im_size = (1280, 720),
              pixels = Resized (Decoded ''original.png'') NEAREST (1280, 720)\<rparr>
   \<and> has_alpha_channel ''LA''"
  by code_simp

text \<open>
  Claim C7, amended.  For every source image that opens and every target size with
  positive sides (the PNG writer accepting the image): if the mode of the source is
  \<open>RGBA\<close>, the image that \<open>resize_image_to_match\<close> encodes is the resized image pasted,
  with its own alpha band as the mask, onto an opaque white \<open>RGB\<close> background of the
  same size, and its mode \<open>RGB\<close> has no alpha channel; if the mode is any other, the
  resized image is encoded as it is, in the mode of the source, so a source with an
  alpha channel in another mode (such as \<open>LA\<close>) keeps it.
\<close>

theorem alpha_composited_only_for_rgba:
  assumes "parse_size target_size = Inr (width, height)" and "0 < width" and "0 < height"
    and "open_image e path = Inr img" and "\<forall>im. png_refuses e im = None"
  shows "\<exists>r. resize img (width, height) NEAREST = Inr r \<and> mode r = mode img
           \<and> (mode img = ''RGBA'' \<longrightarrow>
                 resize_image_to_match e path target_size
                   = Inr \<lparr>mode = ''RGB'', im_size = (width, height),
                          pixels = Pasted (Fill [255, 255, 255]) (pixels r) (0, 0)
                                     (Some (Band (pixels r) 3))\<rparr>
                 \<and> \<not> has_alpha_channel ''RGB'')
           \<and> (mode img \<noteq> ''RGBA'' \<longrightarrow>
                 resize_image_to_match e path target_size = Inr r
                 \<and> (has_alpha_channel (mode img) \<longrightarrow> has_alpha_channel (mode r)))"
proof -
  from resize_positive [of "(width, height)" img NEAREST] assms(2,3)
  obtain r where r: "resize img (width, height) NEAREST = Inr r" by auto
  have rs: "im_size r = (width, height)" using r by (rule resize_size)
  have rm: "mode r = mode img" using r by (rule resize_mode)
  have pos: "0 \<le> fst (im_size r)" "0 \<le> snd (im_size r)" using rs assms(2,3) by simp_all
  have A: "resize_image_to_match e path target_size
          = Inr \<lparr>mode = ''RGB'', im_size = (width, height),
                 pixels = Pasted (Fill [255, 255, 255]) (pixels r) (0, 0)
                            (Some (Band (pixels r) 3))\<rparr>"
    if "mode img = ''RGBA''"
    using flatten_on_white [OF pos] that rm rs r assms(1,4,5)
    by (simp add: resize_image_to_match_def)
  have B: "resize_image_to_match e path target_size = Inr r" if "mode img \<noteq> ''RGBA''"
    using that rm r assms(1,4,5) by (simp add: resize_image_to_match_def)
  have C: "\<not> has_alpha_channel ''RGB''" by (simp add: has_alpha_channel_def)
  show ?thesis using r rm A B C by auto
qed

theorem alpha_composited_only_for_rgba_witness:
  "parse_size ''1280x720'' = Inr (1280, 720) \<and> (0::int) < 1280 \<and> (0::int) < 720
   \<and> open_image (one_file ''RGBA'' (32, 32)) ''original.png''
       = Inr (source_image ''RGBA'' (32, 32) ''original.png'')
   \<and> mode (source_image ''RGBA'' (32, 32) ''original.png'') = ''RGBA''
   \<and> (\<forall>im. png_refuses (one_file ''RGBA'' (32, 32)) im = None)
   \<and> resize_image_to_match (one_file ''RGBA'' (32, 32)) ''original.png'' ''1280x720''
       = Inr \<lparr>mode = ''RGB'', im_size = (1280, 720),
              pixels = Pasted (Fill [255, 255, 255])
                         (Resized (Decoded ''original.png'') NEAREST (1280, 720)) (0, 0)
                         (Some (Band (Resized (Decoded ''original.png'') NEAREST (1280, 720)) 3))\<rparr>
   \<and> open_image (one_file ''LA'' (32, 32)) ''original.png''
       = Inr (source_image ''LA'' (32, 32) ''original.png'')
   \<and> mode (source_image ''LA'' (32, 32) ''original.png'') \<noteq> ''RGBA''
   \<and> has_alpha_channel (mode (source_image ''LA'' (32, 32) ''original.png''))
   \<and> (\<forall>im. png_refuses (one_file ''LA'' (32, 32)) im = None)
   \<and> (\<exists>r. resize_image_to_match (one_file ''LA'' (32, 32)) ''original.png'' ''1280x720'' = Inr r
          \<and> mode r = ''LA'' \<and> has_alpha_channel (mode r))"
proof -
  have p: "parse_size ''1280x720'' = Inr (1280, 720)" by code_simp
  have z: "(0::int) < 1280" "(0::int) < 720" by simp_all
  have o: "open_image (one_file ''RGBA'' (32, 32)) ''original.png''
       = Inr (source_image ''RGBA'' (32, 32) ''original.png'')"
    and ok: "\<forall>im. png_refuses (one_file ''RGBA'' (32, 32)) im = None"
    by (simp_all add: one_file_def)
  have m: "mode (source_image ''RGBA'' (32, 32) ''original.png'') = ''RGBA''"
    by (simp add: source_image_def)
  have o2: "open_image (one_file ''LA'' (32, 32)) ''original.png''
       = Inr (source_image ''LA'' (32, 32) ''original.png'')"
    and ok2: "\<forall>im. png_refuses (one_file ''LA'' (32, 32)) im = None"
    by (simp_all add: one_file_def)
  have m2: "mode (source_image ''LA'' (32, 32) ''original.png'') = ''LA''"
    by (simp add: source_image_def)
  have al: "has_alpha_channel ''LA''" by (simp add: has_alpha_channel_def)
  from alpha_composited_only_for_rgba [OF p z o ok] m
  obtain r where
    r: "resize (source_image ''RGBA'' (32, 32) ''original.png'') (1280, 720) NEAREST = Inr r"
    and res: "resize_image_to_match (one_file ''RGBA'' (32, 32)) ''original.png'' ''1280x720''
       = Inr \<lparr>mode = ''RGB'', im_size = (1280, 720),
              pixels = Pasted (Fill [255, 255, 255]) (pixels r) (0, 0)
                         (Some (Band (pixels r) 3))\<rparr>"
    by auto
  from r have px: "pixels r = Resized (Decoded ''original.png'') NEAREST (1280, 720)"
    by (auto simp: resize_def source_image_def)
  from alpha_composited_only_for_rgba [OF p z o2 ok2] m2 al
  obtain r2 where
    "resize_image_to_match (one_file ''LA'' (32, 32)) ''original.png'' ''1280x720'' = Inr r2"
    "mode r2 = ''LA''" "has_alpha_channel (mode r2)"
    by auto
  then have L: "\<exists>r. resize_image_to_match (one_file ''LA'' (32, 32)) ''original.png'' ''1280x720''
              = Inr r \<and> mode r = ''LA'' \<and> has_alpha_channel (mode r)"
    by blast
  show ?thesis using p o ok m res px o2 ok2 m2 al L by simp
qed

section \<open>Properties of the floating-point model\<close>











section \<open>Properties of the sprite sheet composer\<close>

subsection \<open>The loops\<close>

lemma load_all_result:
  "load_all e fs (a, m, l) =
     (\<lambda>f. if f \<in> set fs then Some (frames_of e f) else a f,
      Max (insert m (set (map (\<lambda>f. length (frames_of e f)) fs))),
      l @ map (\<lambda>f. ''  '' @ f @ '': '' @ str_nat (length (frames_of e f)) @ '' frames'') fs)"
proof (induction fs arbitrary: a m l)
  case Nil
  then show ?case by simp
next
  case (Cons f fs)
  define S where "S = set (map (\<lambda>f. length (frames_of e f)) fs)"
  have fin: "finite S" by (simp add: S_def)
  have "Max (insert (max m (length (frames_of e f))) S)
      = Max (insert m (insert (length (frames_of e f)) S))"
  proof (cases "S = {}")
    case True
    then show ?thesis by (simp add: max.commute)
  next
    case False
    with fin show ?thesis by (simp add: max.assoc)
  qed
  then show ?case by (auto simp: Cons.IH Let_def fun_eq_iff S_def)
qed

lemma max_zero_iff:
  "Max (insert (0::nat) (set ns)) = 0 \<longleftrightarrow> list_all (\<lambda>n. n = 0) ns"
proof -
  have "Max (insert 0 (set ns)) \<le> 0 \<longleftrightarrow> (\<forall>n \<in> insert 0 (set ns). n \<le> 0)"
    by (rule Max_le_iff) simp_all
  then show ?thesis by (auto simp: list_all_iff)
qed

lemma max_insert_zero:
  "ns \<noteq> [] \<Longrightarrow> Max (insert (0::nat) (set ns)) = Max (set ns)"
  by (simp add: max_def)

lemma paste_row_size:
  "paste_row e folder row col fs sheet = Inr s \<Longrightarrow> im_size s = im_size sheet"
proof (induction fs arbitrary: col sheet)
  case Nil
  then show ?case by simp
next
  case (Cons f fs)
  from Cons.prems obtain fr s1 where
    "paste sheet fr (col * FRAME_SIZE, row * FRAME_SIZE) None = Inr s1"
    "paste_row e folder row (col + 1) fs s1 = Inr s"
    by (auto split: sum.splits)
  with Cons.IH show ?case by (auto simp: paste_def)
qed

lemma paste_rows_size:
  "paste_rows e an row folders sheet = Inr s \<Longrightarrow> im_size s = im_size sheet"
proof (induction folders arbitrary: row sheet)
  case Nil
  then show ?case by simp
next
  case (Cons f fs)
  from Cons.prems obtain s1 where
    "paste_row e f row 0 (case an f of Some frames \<Rightarrow> frames | None \<Rightarrow> []) sheet = Inr s1"
    "paste_rows e an (row + 1) fs s1 = Inr s"
    by (auto split: sum.splits)
  with Cons.IH paste_row_size show ?case by metis
qed

lemma paste_row_ok:
  "list_all (\<lambda>p. case process_frame e folder p of Inl x \<Rightarrow> False | Inr im \<Rightarrow> True) fs \<Longrightarrow>
   \<exists>s. paste_row e folder row col fs sheet = Inr s"
  by (induction fs arbitrary: col sheet) (auto simp: paste_def split: sum.splits)

lemma paste_rows_ok:
  "list_all (\<lambda>folder. list_all (\<lambda>p. case process_frame e folder p of Inl x \<Rightarrow> False | Inr im \<Rightarrow> True)
      (case an folder of Some frames \<Rightarrow> frames | None \<Rightarrow> [])) folders \<Longrightarrow>
   \<exists>s. paste_rows e an row folders sheet = Inr s"
proof (induction folders arbitrary: row sheet)
  case Nil
  then show ?case by simp
next
  case (Cons f fs)
  from Cons.prems paste_row_ok [of e f "case an f of Some frames \<Rightarrow> frames | None \<Rightarrow> []" row 0 sheet]
  obtain s1 where
    "paste_row e f row 0 (case an f of Some frames \<Rightarrow> frames | None \<Rightarrow> []) sheet = Inr s1"
    by auto
  moreover from Cons.prems Cons.IH [of "row + 1" s1]
  obtain s where "paste_rows e an (row + 1) fs s1 = Inr s" by auto
  ultimately show ?case by simp
qed

subsection \<open>The three ways \<open>main\<close> can go\<close>

lemma main_no_folders:
  assumes "iterdir e = Inr listing" and "folders_of listing = []"
  shows "main e d = (Inr (), d\<lparr>console := console d @
           [''No animation folders found in output/sprite_frames'']\<rparr>)"
  using assms by (simp add: main_def folders_of_def INPUT_DIR_def)

lemma main_no_frames:
  assumes "iterdir e = Inr listing" and "folders_of listing \<noteq> []"
    and "list_all (\<lambda>n. n = 0) (frame_counts e listing)"
  shows "main e d = (Inr (), d\<lparr>console := console d @
           ([''Found '' @ str_nat (length (folders_of listing)) @ '' animations: ''
               @ repr_names (folders_of listing)]
            @ map (\<lambda>f. ''  '' @ f @ '': '' @ str_nat (length (frames_of e f)) @ '' frames'')
                (folders_of listing)) @
           [''No frames found in any animation folder'']\<rparr>)"
proof -
  have "Max (insert 0 (set (frame_counts e listing))) = 0"
    using assms(3) by (simp only: max_zero_iff)
  then have m: "Max (insert 0 (set (map (\<lambda>f. length (frames_of e f))
                  (sort (map fst (filter snd listing)))))) = 0"
    by (simp add: frame_counts_def folders_of_def)
  show ?thesis
    using assms(1,2) m
    by (simp add: main_def load_all_result Let_def folders_of_def del: set_map)
qed

lemma main_compose:
  assumes "iterdir e = Inr listing" and "folders_of listing \<noteq> []"
    and "\<not> list_all (\<lambda>n. n = 0) (frame_counts e listing)"
  shows "\<exists>d3 an blank.
           im_size blank = (FRAME_SIZE * int (Max (set (frame_counts e listing))),
                            FRAME_SIZE * int (length (folders_of listing)))
         \<and> images d3 = images d
         \<and> (\<forall>f \<in> set (folders_of listing). an f = Some (frames_of e f))
         \<and> main e d =
             (case paste_rows e an 0 (folders_of listing) blank of
                Inl x \<Rightarrow> (Inl x, d3)
              | Inr spritesheet \<Rightarrow>
                 (case mkdir_fails e of
                    Some x \<Rightarrow> (Inl x, d3)
                  | None \<Rightarrow>
                     (case save_fails e spritesheet of
                        Some x \<Rightarrow> (Inl x, d3)
                      | None \<Rightarrow>
                         (Inr (),
                          d3\<lparr>images := (images d3)(OUTPUT_FILE \<mapsto> spritesheet),
                             console := console d3 @
                               [newline # ''Saved sprite sheet to '' @ OUTPUT_FILE]\<rparr>))))"
proof -
  define folders where "folders = sort (map fst (filter snd listing))"
  define mx where "mx = Max (insert 0 (set (map (\<lambda>f. length (frames_of e f)) folders)))"
  have fo: "folders_of listing = folders" by (simp add: folders_of_def folders_def)
  have fc: "frame_counts e listing = map (\<lambda>f. length (frames_of e f)) folders"
    by (simp add: frame_counts_def fo)
  have ne: "folders \<noteq> []" using assms(2) fo by simp
  have mx0: "mx \<noteq> 0"
    using assms(3) max_zero_iff [of "frame_counts e listing"] by (simp add: mx_def fc)
  have mxeq: "mx = Max (set (frame_counts e listing))"
    using ne max_insert_zero [of "frame_counts e listing"] by (simp add: mx_def fc)
  have nn: "\<not> (FRAME_SIZE * int mx < 0 \<or> FRAME_SIZE * int (length folders) < 0)"
    by (simp add: FRAME_SIZE_def)
  show ?thesis
    using assms(1) ne mx0 nn
    apply (simp add: main_def load_all_result Let_def Image_new_def fo
        folders_def [symmetric] mx_def [symmetric] mxeq [symmetric] del: set_map)
    apply (intro exI conjI)
       prefer 4
       apply (rule refl)
      apply simp_all
    done
qed

subsection \<open>The size of a processed frame\<close>

lemma resize_with_padding_size:
  assumes "resize_with_padding im t bg = Inr out"
  shows "im_size out = (t, t) \<and> mode out = ''RGBA''"
proof -
  obtain nw nh where sc: "scaled_size t (fst (im_size im)) (snd (im_size im)) = Inr (nw, nh)"
    using assms
    by (cases "scaled_size t (fst (im_size im)) (snd (im_size im))")
       (auto simp: resize_with_padding_def)
  obtain r where r: "resize im (nw, nh) LANCZOS = Inr r"
    using assms sc
    by (cases "resize im (nw, nh) LANCZOS") (auto simp: resize_with_padding_def)
  obtain bg' where bg: "Image_new ''RGBA'' (t, t) (bg @ [255]) = Inr bg'"
    using assms sc r
    by (cases "Image_new ''RGBA'' (t, t) (bg @ [255])") (auto simp: resize_with_padding_def)
  have "paste bg' r ((t - nw) div 2, (t - nh) div 2)
          (if mode r = ''RGBA'' then Some r else None) = Inr out"
    using assms sc r bg by (simp add: resize_with_padding_def Let_def)
  from paste_size [OF this] paste_mode [OF this] Image_new_size [OF bg]
  show ?thesis by simp
qed

lemma process_frame_size:
  assumes "process_frame e folder p = Inr im"
  shows "im_size im = (FRAME_SIZE, FRAME_SIZE) \<and> mode im = ''RGB''"
proof -
  obtain frame where f: "load_frame e p = Inr frame"
    using assms by (cases "load_frame e p") (auto simp: process_frame_def)
  define rz where "rz = (if folder = ''hatching''
                then resize_with_padding frame FRAME_SIZE BACKGROUND_COLOR
                else resize frame (FRAME_SIZE, FRAME_SIZE) LANCZOS)"
  obtain fr where fr: "rz = Inr fr"
    using assms f by (cases rz) (auto simp: process_frame_def rz_def)
  have sz: "im_size fr = (FRAME_SIZE, FRAME_SIZE)"
    using fr resize_with_padding_size [of frame FRAME_SIZE BACKGROUND_COLOR fr]
      resize_size [of frame "(FRAME_SIZE, FRAME_SIZE)" LANCZOS fr]
    by (auto simp: rz_def split: if_splits)
  have fin: "(if mode fr = ''RGBA'' then
               (case Image_new ''RGB'' (FRAME_SIZE, FRAME_SIZE) BACKGROUND_COLOR of
                  Inl x \<Rightarrow> Inl x
                | Inr bg \<Rightarrow> paste bg fr (0, 0) (Some (alpha_band fr)))
             else if mode fr \<noteq> ''RGB'' then Inr (convert fr ''RGB'')
             else Inr fr) = Inr im"
    using assms f fr by (simp add: process_frame_def rz_def)
  show ?thesis
  proof (cases "mode fr = ''RGBA''")
    case True
    with fin obtain bg where bg: "Image_new ''RGB'' (FRAME_SIZE, FRAME_SIZE) BACKGROUND_COLOR = Inr bg"
      and pa: "paste bg fr (0, 0) (Some (alpha_band fr)) = Inr im"
      by (auto split: sum.splits)
    from paste_size [OF pa] paste_mode [OF pa] Image_new_size [OF bg] show ?thesis by simp
  next
    case False
    with fin sz show ?thesis by (auto simp: convert_def split: if_splits)
  qed
qed

subsection \<open>The claims about the composer\<close>

lemma no_frames_some_folder:
  "\<not> list_all (\<lambda>n. n = 0) (frame_counts e listing) \<Longrightarrow> folders_of listing \<noteq> []"
  by (auto simp: frame_counts_def)

lemma main_success_sheet:
  assumes it: "iterdir e = Inr listing"
    and ne: "\<not> list_all (\<lambda>n. n = 0) (frame_counts e listing)"
    and ok: "fst (main e d) = Inr ()"
  shows "\<exists>sheet. images (snd (main e d)) OUTPUT_FILE = Some sheet
           \<and> im_size sheet = (FRAME_SIZE * int (Max (set (frame_counts e listing))),
                               FRAME_SIZE * int (length (folders_of listing)))"
proof -
  from main_compose [OF it no_frames_some_folder [OF ne] ne, of d]
  obtain d3 an blank where
    sz: "im_size blank = (FRAME_SIZE * int (Max (set (frame_counts e listing))),
                          FRAME_SIZE * int (length (folders_of listing)))"
    and m: "main e d =
             (case paste_rows e an 0 (folders_of listing) blank of
                Inl x \<Rightarrow> (Inl x, d3)
              | Inr spritesheet \<Rightarrow>
                 (case mkdir_fails e of
                    Some x \<Rightarrow> (Inl x, d3)
                  | None \<Rightarrow>
                     (case save_fails e spritesheet of
                        Some x \<Rightarrow> (Inl x, d3)
                      | None \<Rightarrow>
                         (Inr (),
                          d3\<lparr>images := (images d3)(OUTPUT_FILE \<mapsto> spritesheet),
                             console := console d3 @
                               [newline # ''Saved sprite sheet to '' @ OUTPUT_FILE]\<rparr>))))"
    by blast
  from ok m obtain sheet where
    pr: "paste_rows e an 0 (folders_of listing) blank = Inr sheet"
    and im: "images (snd (main e d)) OUTPUT_FILE = Some sheet"
    by (auto split: sum.splits option.splits)
  from paste_rows_size [OF pr] sz im show ?thesis by simp
qed

lemma main_succeeds:
  assumes it: "iterdir e = Inr listing"
    and ne: "\<not> list_all (\<lambda>n. n = 0) (frame_counts e listing)"
    and fr: "frames_ok e listing" and mk: "mkdir_fails e = None"
    and sv: "\<forall>im. save_fails e im = None"
  shows "fst (main e d) = Inr ()"
proof -
  from main_compose [OF it no_frames_some_folder [OF ne] ne, of d]
  obtain d3 an blank where
    an: "\<forall>f \<in> set (folders_of listing). an f = Some (frames_of e f)"
    and m: "main e d =
             (case paste_rows e an 0 (folders_of listing) blank of
                Inl x \<Rightarrow> (Inl x, d3)
              | Inr spritesheet \<Rightarrow>
                 (case mkdir_fails e of
                    Some x \<Rightarrow> (Inl x, d3)
                  | None \<Rightarrow>
                     (case save_fails e spritesheet of
                        Some x \<Rightarrow> (Inl x, d3)
                      | None \<Rightarrow>
                         (Inr (),
                          d3\<lparr>images := (images d3)(OUTPUT_FILE \<mapsto> spritesheet),
                             console := console d3 @
                               [newline # ''Saved sprite sheet to '' @ OUTPUT_FILE]\<rparr>))))"
    by blast
  have "list_all (\<lambda>folder. list_all
          (\<lambda>p. case process_frame e folder p of Inl x \<Rightarrow> False | Inr im \<Rightarrow> True)
          (case an folder of Some frames \<Rightarrow> frames | None \<Rightarrow> [])) (folders_of listing)"
    using fr an by (simp add: frames_ok_def list_all_iff)
  from paste_rows_ok [OF this, of 0 blank] obtain sheet where
    "paste_rows e an 0 (folders_of listing) blank = Inr sheet" by blast
  with m mk sv show ?thesis by simp
qed

text \<open>
  Claim C3.  For every input with at least one animation set that has at least one
  frame: whenever \<open>main\<close> ends normally, the sheet it saved has exactly the size
  \<open>(FRAME_SIZE * max frame count, FRAME_SIZE * number of animation sets)\<close>; it does
  end normally when every frame loads and resizes and the sheet can be saved; and the
  cell size is uniform, every processed frame being \<open>FRAME_SIZE\<close> by \<open>FRAME_SIZE\<close>.
\<close>

theorem sprite_sheet_dimensions:
  assumes "iterdir e = Inr listing"
    and "\<not> list_all (\<lambda>n. n = 0) (frame_counts e listing)"
  shows "(fst (main e d) = Inr () \<longrightarrow>
            (\<exists>sheet. images (snd (main e d)) OUTPUT_FILE = Some sheet
               \<and> im_size sheet = (FRAME_SIZE * int (Max (set (frame_counts e listing))),
                                   FRAME_SIZE * int (length (folders_of listing)))))
       \<and> (frames_ok e listing \<and> mkdir_fails e = None \<and> (\<forall>im. save_fails e im = None) \<longrightarrow>
            fst (main e d) = Inr ())
       \<and> (\<forall>folder p im. process_frame e folder p = Inr im \<longrightarrow>
            im_size im = (FRAME_SIZE, FRAME_SIZE))"
  using main_success_sheet [OF assms, of d] main_succeeds [OF assms, of d] process_frame_size [of e]
  by blast

theorem sprite_sheet_dimensions_witness:
  "iterdir walk_idle = Inr [(''walk'', True), (''idle'', True), (''notes.txt'', False)]
   \<and> frame_counts walk_idle [(''walk'', True), (''idle'', True), (''notes.txt'', False)] = [2, 3]
   \<and> frames_ok walk_idle [(''walk'', True), (''idle'', True), (''notes.txt'', False)]
   \<and> mkdir_fails walk_idle = None \<and> (\<forall>im. save_fails walk_idle im = None)
   \<and> fst (main walk_idle empty_disk) = Inr ()
   \<and> (\<exists>sheet. images (snd (main walk_idle empty_disk)) OUTPUT_FILE = Some sheet
          \<and> im_size sheet = (384, 256))"
proof -
  let ?L = "[(''walk'', True), (''idle'', True), (''notes.txt'', False)]"
  have it: "iterdir walk_idle = Inr ?L" by (simp add: walk_idle_def)
  have fc: "frame_counts walk_idle ?L = [2, 3]" by code_simp
  have fo: "length (folders_of ?L) = 2" by code_simp
  have ne: "\<not> list_all (\<lambda>n. n = 0) (frame_counts walk_idle ?L)" by (simp add: fc)
  have fr: "frames_ok walk_idle ?L" by code_simp
  have mk: "mkdir_fails walk_idle = None" and sv: "\<forall>im. save_fails walk_idle im = None"
    by (simp_all add: walk_idle_def)
  from sprite_sheet_dimensions [OF it ne, of empty_disk] fr mk sv
  have ok: "fst (main walk_idle empty_disk) = Inr ()"
    and "\<exists>sheet. images (snd (main walk_idle empty_disk)) OUTPUT_FILE = Some sheet
          \<and> im_size sheet = (FRAME_SIZE * int (Max (set (frame_counts walk_idle ?L))),
                              FRAME_SIZE * int (length (folders_of ?L)))"
    by blast+
  then show ?thesis using it fc fo fr mk sv by (simp add: FRAME_SIZE_def)
qed

text \<open>
  Claim C8.  When the input directory holds no animation folder, or no animation folder
  holds a frame, \<open>main\<close> ends normally without saving anything: the files are as
  before, and the last thing printed says that there is nothing to compose.
\<close>

theorem nothing_to_compose:
  assumes "iterdir e = Inr listing"
    and "folders_of listing = [] \<or> list_all (\<lambda>n. n = 0) (frame_counts e listing)"
  shows "fst (main e d) = Inr () \<and> images (snd (main e d)) = images d
       \<and> console (snd (main e d)) \<noteq> []
       \<and> last (console (snd (main e d)))
           = (if folders_of listing = [] then ''No animation folders found in output/sprite_frames''
              else ''No frames found in any animation folder'')"
proof (cases "folders_of listing = []")
  case True
  from main_no_folders [OF assms(1) True, of d] True show ?thesis by simp
next
  case False
  with assms(2) have "list_all (\<lambda>n. n = 0) (frame_counts e listing)" by simp
  from main_no_frames [OF assms(1) False this, of d] False show ?thesis by simp
qed

theorem nothing_to_compose_witness:
  "iterdir no_sets = Inr [(''notes.txt'', False)] \<and> folders_of [(''notes.txt'', False)] = []
   \<and> fst (main no_sets empty_disk) = Inr ()
   \<and> images (snd (main no_sets empty_disk)) = images empty_disk
   \<and> last (console (snd (main no_sets empty_disk)))
       = ''No animation folders found in output/sprite_frames''
   \<and> iterdir empty_sets = Inr [(''walk'', True), (''idle'', True)]
   \<and> frame_counts empty_sets [(''walk'', True), (''idle'', True)] = [0, 0]
   \<and> fst (main empty_sets empty_disk) = Inr ()
   \<and> images (snd (main empty_sets empty_disk)) = images empty_disk
   \<and> last (console (snd (main empty_sets empty_disk)))
       = ''No frames found in any animation folder''"
proof -
  have i1: "iterdir no_sets = Inr [(''notes.txt'', False)]" by (simp add: no_sets_def)
  have f1: "folders_of [(''notes.txt'', False)] = []" by (simp add: folders_of_def)
  have i2: "iterdir empty_sets = Inr [(''walk'', True), (''idle'', True)]"
    by (simp add: empty_sets_def)
  have c2: "frame_counts empty_sets [(''walk'', True), (''idle'', True)] = [0, 0]" by code_simp
  have f2: "folders_of [(''walk'', True), (''idle'', True)] \<noteq> []" by (simp add: folders_of_def)
  have a2: "folders_of [(''walk'', True), (''idle'', True)] = []
      \<or> list_all (\<lambda>n. n = 0) (frame_counts empty_sets [(''walk'', True), (''idle'', True)])"
    by (simp add: c2)
  from nothing_to_compose [OF i1, of empty_disk] nothing_to_compose [OF i2 a2, of empty_disk]
  show ?thesis using i1 f1 i2 c2 f2 by simp
qed

subsection \<open>The scaled size of \<open>resize_with_padding\<close>\<close>













subsection \<open>The letterbox resize (claim C6)\<close>


text \<open>
  The long edge need not reach the side of the canvas either: for a frame of 49 by 49
  pixels \<open>49 * (128 / 49)\<close> is rounded to a double just below 128, and truncation gives
  127.
\<close>

lemma long_edge_one_pixel_short:
  "scaled_size 128 49 49 = Inr (127, 127)"
  by code_simp



end
